theory Spec2Isabelle
  imports Main
begin

section \<open>The ETL engine of the webhook service (src/lib/etl/etl-engine.ts)\<close>

text \<open>
  The engine extracts captured webhook requests from storage, filters them, runs an
  ordered chain of transformations over them and loads the result to a destination,
  keeping one job record per run. The definitions below follow the class
  \<^verbatim>\<open>ETLEngine\<close> method by method. What the engine gets from outside (the
  JavaScript built-ins it calls, the storage manager, the network, the clock) is a
  parameter of the model.
\<close>

subsection \<open>JavaScript numbers and strings as the engine uses them\<close>

text \<open>
  \<^verbatim>\<open>Date.prototype.getTime()\<close> yields the milliseconds since the epoch, or NaN for an
  invalid date. A time value is an \<open>int option\<close>, \<open>None\<close> standing for NaN.
  A comparison with NaN on either side is false.
\<close>

type_synonym timeval = "int option"

definition jsLess :: "timeval \<Rightarrow> timeval \<Rightarrow> bool" where
  "jsLess a b = (case a of None \<Rightarrow> False | Some x \<Rightarrow> (case b of None \<Rightarrow> False | Some y \<Rightarrow> x < y))"

definition jsGreater :: "timeval \<Rightarrow> timeval \<Rightarrow> bool" where
  "jsGreater a b = (case a of None \<Rightarrow> False | Some x \<Rightarrow> (case b of None \<Rightarrow> False | Some y \<Rightarrow> x > y))"

text \<open>
  \<^verbatim>\<open>String.prototype.includes\<close>: the second string occurs in the first as a
  contiguous run of characters (the empty string occurs in every string).
\<close>

fun startsWith :: "string \<Rightarrow> string \<Rightarrow> bool" where
  "startsWith s [] = True"
| "startsWith [] (d # t) = False"
| "startsWith (c # s) (d # t) = (c = d \<and> startsWith s t)"

fun includes' :: "string \<Rightarrow> string \<Rightarrow> bool" where
  "includes' [] t = (t = [])"
| "includes' (c # s) t = (startsWith (c # s) t \<or> includes' s t)"

subsection \<open>Untyped records of the transformation pipeline\<close>

text \<open>
  The pipeline works on \<^verbatim>\<open>any[]\<close>. A value is a primitive, a reference to an object
  that the engine never looks into (\<open>JRef\<close>, compared by its address), the array of
  group members that an aggregate step builds (\<open>JArr\<close>), or the built-in function or
  object that every plain object inherits under a name (\<open>JNative\<close> of that name).
  Numbers are the integers.
  An object is the list of its own properties in insertion order. Two \<open>JArr\<close> values
  are the same array when they hold the same members: the arrays of one aggregate step
  belong to groups with different keys, so they differ in their members.
\<close>

datatype jsval =
    JUndefined
  | JNull
  | JBool bool
  | JNum int
  | JStr string
  | JRef nat
  | JArr "(string \<times> jsval) list list"
  | JNative string

type_synonym obj = "(string \<times> jsval) list"

fun truthy :: "jsval \<Rightarrow> bool" where
  "truthy JUndefined = False"
| "truthy JNull = False"
| "truthy (JBool b) = b"
| "truthy (JNum n) = (n \<noteq> 0)"
| "truthy (JStr s) = (s \<noteq> [])"
| "truthy (JRef a) = True"
| "truthy (JArr xs) = True"
| "truthy (JNative n) = True"

text \<open>
  The header object of a request, the records of the pipeline and the configurations
  are plain objects. Reading a property that such an object does not own goes on to
  \<^verbatim>\<open>Object.prototype\<close>, whose properties are those of the language standard and of
  its annex B: the program adds none and removes none. Their values are built-in
  functions; under \<^verbatim>\<open>__proto__\<close> the prototype itself is found.
\<close>

definition objectPrototypeNames :: "string list" where
  "objectPrototypeNames =
     [''constructor'', ''hasOwnProperty'', ''isPrototypeOf'', ''propertyIsEnumerable'',
      ''toLocaleString'', ''toString'', ''valueOf'', ''__defineGetter__'',
      ''__defineSetter__'', ''__lookupGetter__'', ''__lookupSetter__'', ''__proto__'']"

text \<open>
  Reading a property: the own property if there is one, else the inherited one, else
  \<^verbatim>\<open>undefined\<close>.
\<close>

definition getProp :: "obj \<Rightarrow> string \<Rightarrow> jsval" where
  "getProp item k =
     (case map_of item k of
        Some v \<Rightarrow> v
      | None \<Rightarrow> if k \<in> set objectPrototypeNames then JNative k else JUndefined)"

text \<open>
  Defining a property: a key the object has keeps its place and takes the new value, a
  new key goes last. An object literal defines its properties from left to right.
\<close>

fun setProp :: "obj \<Rightarrow> string \<Rightarrow> jsval \<Rightarrow> obj" where
  "setProp [] k v = [(k, v)]"
| "setProp ((k', v') # ps) k v = (if k' = k then (k, v) # ps else (k', v') # setProp ps k v)"

definition objectLiteral :: "(string \<times> jsval) list \<Rightarrow> obj" where
  "objectLiteral ps = foldl (\<lambda>ob (k, v). setProp ob k v) [] ps"

text \<open>
  The built-ins whose algorithms are the language's and not the engine's:
  \<open>parseDate s\<close> is \<^verbatim>\<open>new Date(s).getTime()\<close> (NaN when \<open>s\<close> is not a date);
  \<open>regexTest p s\<close> is \<^verbatim>\<open>new RegExp(p).test(s)\<close>, \<open>None\<close> when the constructor
  throws on an invalid pattern; \<open>toPropertyKey\<close> is the conversion of a value to a
  property name in \<^verbatim>\<open>item[config.field]\<close> and \<^verbatim>\<open>{[config.groupBy]: key}\<close>;
  \<open>cannotSetMessage p\<close> is the message of the \<^verbatim>\<open>TypeError\<close> for setting the
  property \<open>p\<close> of \<^verbatim>\<open>undefined\<close>; \<open>nativeText n\<close> is the string that the
  built-in value inherited under the name \<open>n\<close> converts to, which is what
  \<^verbatim>\<open>RegExp.prototype.test\<close> sees of it; \<open>notAFunctionMessage x\<close> is the message of
  the \<^verbatim>\<open>TypeError\<close> for calling \<open>x\<close> when it is not a function.
\<close>

record runtime =
  parseDate :: "string \<Rightarrow> timeval"
  regexTest :: "string \<Rightarrow> string \<Rightarrow> bool option"
  toPropertyKey :: "jsval \<Rightarrow> string"
  cannotSetMessage :: "string \<Rightarrow> string"
  nativeText :: "string \<Rightarrow> string"
  notAFunctionMessage :: "string \<Rightarrow> string"

subsection \<open>Thrown values\<close>

text \<open>
  What a \<^verbatim>\<open>throw\<close> or a rejected promise carries: an \<^verbatim>\<open>Error\<close> with its message,
  or a value that is not an \<^verbatim>\<open>Error\<close>. A result is \<open>Inl\<close> of the thrown value
  or \<open>Inr\<close> of the returned one.
\<close>

datatype thrown = Error string | NonError

subsection \<open>Captured requests and filter specifications\<close>

text \<open>
  The fields of a captured request that the engine reads. \<open>headers\<close> holds the own
  properties of the header object; an optional field that is absent is \<open>None\<close>.
\<close>

record WebhookRequest =
  method' :: string
  headers :: "string \<Rightarrow> string option"
  body :: string
  timestamp :: timeval
  ip :: "string option"
  userAgent :: "string option"
  contentType :: "string option"

record dateRange =
  start :: string
  end' :: string

datatype operator = Equals | Contains | Regex | OtherOperator

record headerCondition =
  key :: string
  operator :: operator
  val :: string

record ETLFilters =
  webhookId :: "string option"
  dateRange :: "dateRange option"
  methods :: "string list option"
  contentTypes :: "string list option"
  ipAddresses :: "string list option"
  userAgents :: "string list option"
  bodyContains :: "string option"
  headerConditions :: "headerCondition list option"

subsection \<open>applyFilters\<close>

text \<open>
  The date block of the filter callback: the condition under which it returns false.
\<close>

definition dateRangeRejects :: "runtime \<Rightarrow> dateRange \<Rightarrow> WebhookRequest \<Rightarrow> bool" where
  "dateRangeRejects js dr request =
     (let requestTime = timestamp request;
          startTime = parseDate js (start dr);
          endTime = parseDate js (end' dr)
      in jsLess requestTime startTime \<or> jsGreater requestTime endTime)"

text \<open>
  The loop over the header conditions: \<open>Inr False\<close> is its \<^verbatim>\<open>return false\<close>,
  \<open>Inr True\<close> is falling out of the loop, \<open>Inl\<close> is what it throws.
  \<^verbatim>\<open>request.headers[condition.key]\<close> is an own header or, for a name of
  \<^verbatim>\<open>Object.prototype\<close> that the request does not own, the inherited built-in value.
  A header value that is missing or the empty string is falsy. The inherited value is
  truthy and is no string: it is not \<^verbatim>\<open>===\<close> to the value of a condition, it has no
  method \<^verbatim>\<open>includes\<close>, so that calling it throws outside the \<^verbatim>\<open>try\<close> of the regex
  case, and \<^verbatim>\<open>test\<close> converts it to a string. An operator outside the three cases of
  the switch checks nothing.
\<close>

fun headerLoop :: "runtime \<Rightarrow> WebhookRequest \<Rightarrow> headerCondition list \<Rightarrow> thrown + bool" where
  "headerLoop js request [] = Inr True"
| "headerLoop js request (condition # rest) =
     (case headers request (key condition) of
        Some headerValue \<Rightarrow>
          if headerValue = [] then Inr False
          else (case operator condition of
                  Equals \<Rightarrow>
                    if headerValue \<noteq> val condition then Inr False
                    else headerLoop js request rest
                | Contains \<Rightarrow>
                    if \<not> includes' headerValue (val condition) then Inr False
                    else headerLoop js request rest
                | Regex \<Rightarrow>
                    (case regexTest js (val condition) headerValue of
                       None \<Rightarrow> Inr False
                     | Some matched \<Rightarrow>
                         if \<not> matched then Inr False else headerLoop js request rest)
                | OtherOperator \<Rightarrow> headerLoop js request rest)
      | None \<Rightarrow>
          if key condition \<in> set objectPrototypeNames
          then (case operator condition of
                  Equals \<Rightarrow> Inr False
                | Contains \<Rightarrow> Inl (Error (notAFunctionMessage js ''headerValue.includes''))
                | Regex \<Rightarrow>
                    (case regexTest js (val condition) (nativeText js (key condition)) of
                       None \<Rightarrow> Inr False
                     | Some matched \<Rightarrow>
                         if \<not> matched then Inr False else headerLoop js request rest)
                | OtherOperator \<Rightarrow> headerLoop js request rest)
          else Inr False)"

text \<open>
  The filter callback, one early return after the other, in the order of the source.
  An absent list and an empty list both skip their block, and so does an absent or
  empty \<open>bodyContains\<close> (the empty string is falsy). Only the header loop can throw.
\<close>

definition matches :: "runtime \<Rightarrow> ETLFilters \<Rightarrow> WebhookRequest \<Rightarrow> thrown + bool" where
  "matches js filters request =
     (if (case dateRange filters of None \<Rightarrow> False
          | Some dr \<Rightarrow> dateRangeRejects js dr request) then Inr False
      else if (case methods filters of None \<Rightarrow> False
          | Some ms \<Rightarrow> length ms > 0 \<and> method' request \<notin> set ms) then Inr False
      else if (case contentTypes filters of None \<Rightarrow> False
          | Some cts \<Rightarrow> length cts > 0 \<and>
              (case contentType request of None \<Rightarrow> True
               | Some c \<Rightarrow> c = [] \<or> \<not> list_ex (\<lambda>ct. includes' c ct) cts)) then Inr False
      else if (case ipAddresses filters of None \<Rightarrow> False
          | Some ips \<Rightarrow> length ips > 0 \<and>
              (case ip request of None \<Rightarrow> True
               | Some a \<Rightarrow> a = [] \<or> a \<notin> set ips)) then Inr False
      else if (case userAgents filters of None \<Rightarrow> False
          | Some uas \<Rightarrow> length uas > 0 \<and>
              (case userAgent request of None \<Rightarrow> True
               | Some u \<Rightarrow> u = [] \<or> \<not> list_ex (\<lambda>ua. includes' u ua) uas)) then Inr False
      else if (case bodyContains filters of None \<Rightarrow> False
          | Some b \<Rightarrow> b \<noteq> [] \<and> \<not> includes' (body request) b) then Inr False
      else (case headerConditions filters of
              None \<Rightarrow> Inr True
            | Some conds \<Rightarrow>
                if length conds > 0 then headerLoop js request conds else Inr True))"

text \<open>
  \<^verbatim>\<open>Array.prototype.filter\<close> with a callback that may throw: the elements are
  visited in order, and what the callback throws ends the call.
\<close>

fun filterArray :: "('a \<Rightarrow> thrown + bool) \<Rightarrow> 'a list \<Rightarrow> thrown + 'a list" where
  "filterArray f [] = Inr []"
| "filterArray f (x # xs) =
     (case f x of
        Inl err \<Rightarrow> Inl err
      | Inr keep \<Rightarrow>
          (case filterArray f xs of
             Inl err \<Rightarrow> Inl err
           | Inr ys \<Rightarrow> Inr (if keep then x # ys else ys)))"

definition applyFilters ::
  "runtime \<Rightarrow> WebhookRequest list \<Rightarrow> ETLFilters option \<Rightarrow> thrown + WebhookRequest list" where
  "applyFilters js requests filters =
     (case filters of
        None \<Rightarrow> Inr requests
      | Some f \<Rightarrow> filterArray (matches js f) requests)"

subsection \<open>The transformations\<close>

text \<open>
  The type of a destination or of a transformation is the string found at run time:
  a job received over the network may hold a type that the declarations do not list.
  The order of a transformation is taken to be an integer. Only the fields that the
  engine reads are kept.
\<close>

record ETLDestination =
  type' :: string
  config :: obj

record ETLTransformation =
  type' :: string
  config :: obj
  enabled :: bool
  order :: int

definition filterTransformation :: "runtime \<Rightarrow> obj list \<Rightarrow> obj \<Rightarrow> obj list" where
  "filterTransformation js data cfg =
     filter (\<lambda>item.
        if truthy (getProp cfg ''field'') \<and> truthy (getProp cfg ''value'')
        then getProp item (toPropertyKey js (getProp cfg ''field'')) = getProp cfg ''value''
        else True) data"

text \<open>
  The \<^verbatim>\<open>Map\<close> of the aggregate step, as the list of its entries in insertion order.
  \<open>addToGroup\<close> is one round of the \<^verbatim>\<open>forEach\<close>: a new key gets a new entry at the
  end, a known key gets the item pushed onto its array.
\<close>

fun addToGroup :: "jsval \<Rightarrow> obj \<Rightarrow> (jsval \<times> obj list) list \<Rightarrow> (jsval \<times> obj list) list" where
  "addToGroup k item [] = [(k, [item])]"
| "addToGroup k item ((k', items) # groups) =
     (if k' = k then (k', items @ [item]) # groups
      else (k', items) # addToGroup k item groups)"

definition groupItems :: "string \<Rightarrow> obj list \<Rightarrow> (jsval \<times> obj list) list" where
  "groupItems groupBy data =
     foldl (\<lambda>groups item. addToGroup (getProp item groupBy) item groups) [] data"

definition aggregateTransformation :: "runtime \<Rightarrow> obj list \<Rightarrow> obj \<Rightarrow> obj list" where
  "aggregateTransformation js data cfg =
     (if truthy (getProp cfg ''groupBy'')
      then map (\<lambda>(k, items).
             objectLiteral
               [(toPropertyKey js (getProp cfg ''groupBy''), k),
                (''count'', JNum (int (length items))),
                (''items'', if truthy (getProp cfg ''includeItems'') then JArr items
                            else JUndefined)])
             (groupItems (toPropertyKey js (getProp cfg ''groupBy'')) data)
      else data)"

text \<open>
  The map, enrich and validate steps copy and merge objects of the configuration by
  reference and read the clock; they are parameters here. Each may throw.
\<close>

record otherTransformations =
  mapTransformation :: "obj list \<Rightarrow> obj \<Rightarrow> thrown + obj list"
  enrichTransformation :: "obj list \<Rightarrow> obj \<Rightarrow> thrown + obj list"
  validateTransformation :: "obj list \<Rightarrow> obj \<Rightarrow> thrown + obj list"

definition applyTransformation ::
  "runtime \<Rightarrow> otherTransformations \<Rightarrow> obj list \<Rightarrow> ETLTransformation
     \<Rightarrow> thrown + obj list" where
  "applyTransformation js ops data transformation =
     (if type' transformation = ''filter''
        then Inr (filterTransformation js data (config transformation))
      else if type' transformation = ''map''
        then mapTransformation ops data (config transformation)
      else if type' transformation = ''aggregate''
        then Inr (aggregateTransformation js data (config transformation))
      else if type' transformation = ''enrich''
        then enrichTransformation ops data (config transformation)
      else if type' transformation = ''validate''
        then validateTransformation ops data (config transformation)
      else Inl (Error (''Unknown transformation type: '' @ type' transformation)))"

subsection \<open>transform\<close>

text \<open>
  \<^verbatim>\<open>Array.prototype.sort\<close> with a comparison function is a stable sort. With the
  comparison \<^verbatim>\<open>(a, b) => a.order - b.order\<close> on integers its result is the one of this
  insertion sort, which puts an element before the first one it does not exceed.
\<close>

fun insertSorted :: "('a \<Rightarrow> 'a \<Rightarrow> int) \<Rightarrow> 'a \<Rightarrow> 'a list \<Rightarrow> 'a list" where
  "insertSorted cmp x [] = [x]"
| "insertSorted cmp x (y # ys) =
     (if cmp x y \<le> 0 then x # y # ys else y # insertSorted cmp x ys)"

definition jsSort :: "('a \<Rightarrow> 'a \<Rightarrow> int) \<Rightarrow> 'a list \<Rightarrow> 'a list" where
  "jsSort cmp xs = foldr (insertSorted cmp) xs []"

definition sortedTransformations :: "ETLTransformation list \<Rightarrow> ETLTransformation list" where
  "sortedTransformations transformations =
     jsSort (\<lambda>a b. order a - order b) (filter enabled transformations)"

text \<open>The loop over the sorted steps; the first step that throws ends it.\<close>

fun applyAll ::
  "runtime \<Rightarrow> otherTransformations \<Rightarrow> obj list \<Rightarrow> ETLTransformation list
     \<Rightarrow> thrown + obj list" where
  "applyAll js ops transformedData [] = Inr transformedData"
| "applyAll js ops transformedData (transformation # rest) =
     (case applyTransformation js ops transformedData transformation of
        Inl err \<Rightarrow> Inl err
      | Inr d \<Rightarrow> applyAll js ops d rest)"

definition transform ::
  "runtime \<Rightarrow> otherTransformations \<Rightarrow> obj list \<Rightarrow> ETLTransformation list option
     \<Rightarrow> thrown + obj list" where
  "transform js ops data transformations =
     (case transformations of
        None \<Rightarrow> Inr data
      | Some ts \<Rightarrow>
          if length ts = 0 then Inr data
          else applyAll js ops data (sortedTransformations ts))"

subsection \<open>The collaborators: storage and network\<close>

text \<open>
  An outbound call: the arguments of \<^verbatim>\<open>fetch\<close>. The body is the JSON text of one
  record or of the whole record set; the headers are those of the configuration or the
  default \<^verbatim>\<open>{'Content-Type': 'application/json'}\<close>.
\<close>

datatype payload = One obj | Many "obj list"

datatype headersArg = JsonContentType | ConfigHeaders jsval

record fetchCall =
  url :: jsval
  httpMethod :: jsval
  httpHeaders :: headersArg
  json :: payload

text \<open>
  The world of one run. \<open>getStorageManager\<close> is the error with which obtaining the
  storage manager rejects, if it does; \<open>getRequests\<close> and \<open>getAllWebhookConfigs\<close>
  are the storage manager's methods (of a configuration only its id is read);
  \<open>asObject\<close> is a captured request seen as an untyped object, the list of its own
  properties, its nested objects by reference; \<open>fetch n c\<close> is the error with which the \<open>n\<close>-th outbound call of a load
  rejects, if it does.
\<close>

record world =
  getStorageManager :: "thrown option"
  getRequests :: "string \<Rightarrow> nat \<Rightarrow> thrown + WebhookRequest list"
  getAllWebhookConfigs :: "thrown + string list"
  asObject :: "WebhookRequest \<Rightarrow> obj"
  fetch :: "nat \<Rightarrow> fetchCall \<Rightarrow> thrown option"

subsection \<open>extract\<close>

text \<open>The loop over all webhook configurations, \<open>allRequests\<close> being its accumulator.\<close>

fun collectAll :: "world \<Rightarrow> WebhookRequest list \<Rightarrow> string list \<Rightarrow> thrown + WebhookRequest list" where
  "collectAll w allRequests [] = Inr allRequests"
| "collectAll w allRequests (configId # configs) =
     (case getRequests w configId 1000 of
        Inl err \<Rightarrow> Inl err
      | Inr requests \<Rightarrow> collectAll w (allRequests @ requests) configs)"

text \<open>
  \<^verbatim>\<open>filters?.webhookId\<close> as the condition of the \<^verbatim>\<open>if\<close>: absent filters, an absent
  id and the empty id are falsy.
\<close>

definition scopedWebhook :: "ETLFilters option \<Rightarrow> string option" where
  "scopedWebhook filters =
     (case filters of
        None \<Rightarrow> None
      | Some f \<Rightarrow> (case webhookId f of
                    None \<Rightarrow> None
                  | Some wid \<Rightarrow> if wid = [] then None else Some wid))"

definition extract' :: "runtime \<Rightarrow> world \<Rightarrow> ETLFilters option \<Rightarrow> thrown + WebhookRequest list" where
  "extract' js w filters =
     (case getStorageManager w of
        Some err \<Rightarrow> Inl err
      | None \<Rightarrow>
          (case (case scopedWebhook filters of
                   Some wid \<Rightarrow> getRequests w wid 1000
                 | None \<Rightarrow>
                     (case getAllWebhookConfigs w of
                        Inl err \<Rightarrow> Inl err
                      | Inr configs \<Rightarrow> collectAll w [] configs)) of
             Inl err \<Rightarrow> Inl err
           | Inr allRequests \<Rightarrow> applyFilters js allRequests filters))"

subsection \<open>load\<close>

text \<open>
  A loader returns the outbound calls it made, in order, and the error it threw, if
  any. \<open>loadToFile\<close> and \<open>loadToEmail\<close> only write to the console.
\<close>

definition callMethod :: "obj \<Rightarrow> jsval" where
  "callMethod cfg = (if truthy (getProp cfg ''method'') then getProp cfg ''method'' else JStr ''POST'')"

definition callHeaders :: "obj \<Rightarrow> headersArg" where
  "callHeaders cfg =
     (if truthy (getProp cfg ''headers'') then ConfigHeaders (getProp cfg ''headers'')
      else JsonContentType)"

fun sendEach :: "world \<Rightarrow> obj \<Rightarrow> nat \<Rightarrow> obj list \<Rightarrow> fetchCall list \<times> thrown option" where
  "sendEach w cfg n [] = ([], None)"
| "sendEach w cfg n (item # rest) =
     (let call = \<lparr>url = getProp cfg ''url'', httpMethod = callMethod cfg,
                   httpHeaders = callHeaders cfg, json = One item\<rparr>
      in case fetch w n call of
           Some err \<Rightarrow> ([call], Some err)
         | None \<Rightarrow> (case sendEach w cfg (Suc n) rest of (calls, r) \<Rightarrow> (call # calls, r)))"

definition loadToWebhook :: "world \<Rightarrow> obj list \<Rightarrow> obj \<Rightarrow> fetchCall list \<times> thrown option" where
  "loadToWebhook w data cfg = sendEach w cfg 0 data"

definition loadToFile :: "world \<Rightarrow> obj list \<Rightarrow> obj \<Rightarrow> fetchCall list \<times> thrown option" where
  "loadToFile w data cfg = ([], None)"

definition loadToEmail :: "world \<Rightarrow> obj list \<Rightarrow> obj \<Rightarrow> fetchCall list \<times> thrown option" where
  "loadToEmail w data cfg = ([], None)"

definition loadToAPI :: "world \<Rightarrow> obj list \<Rightarrow> obj \<Rightarrow> fetchCall list \<times> thrown option" where
  "loadToAPI w data cfg =
     (let call = \<lparr>url = getProp cfg ''url'', httpMethod = callMethod cfg,
                   httpHeaders = callHeaders cfg, json = Many data\<rparr>
      in ([call], fetch w 0 call))"

definition load :: "world \<Rightarrow> obj list \<Rightarrow> ETLDestination option \<Rightarrow> fetchCall list \<times> thrown option" where
  "load w data destination =
     (case destination of
        None \<Rightarrow> ([], None)
      | Some d \<Rightarrow>
          if ETLDestination.type' d = ''webhook'' then loadToWebhook w data (ETLDestination.config d)
          else if ETLDestination.type' d = ''file'' then loadToFile w data (ETLDestination.config d)
          else if ETLDestination.type' d = ''email'' then loadToEmail w data (ETLDestination.config d)
          else if ETLDestination.type' d = ''api'' then loadToAPI w data (ETLDestination.config d)
          else ([], Some (Error (''Unsupported destination type: '' @ ETLDestination.type' d))))"

subsection \<open>Jobs and the engine\<close>

datatype jobStatus = Pending | Running | Completed | Failed | Cancelled

record ETLProgress =
  totalRecords :: nat
  processedRecords :: nat
  successfulRecords :: nat
  failedRecords :: nat
  percentage :: nat
  currentPhase :: string

record ETLJobDTO =
  id' :: string
  status :: jobStatus
  filters :: "ETLFilters option"
  transformations :: "ETLTransformation list option"
  destination :: "ETLDestination option"
  startedAt :: "string option"
  completedAt :: "string option"
  progress :: "ETLProgress option"
  error :: "string option"

text \<open>
  Job records are objects that the engine and its callers share: the caller's
  \<open>job\<close>, the entry of \<^verbatim>\<open>this.jobs\<close> and the object that \<open>cancelJob\<close> mutates can
  be one object. So a job is an address into \<open>heap\<close>, and \<^verbatim>\<open>this.jobs\<close> maps an id
  to an address.
\<close>

record engine =
  heap :: "nat \<Rightarrow> ETLJobDTO"
  jobs :: "string \<Rightarrow> nat option"
  activeJobs :: "string set"

definition updateJob :: "nat \<Rightarrow> (ETLJobDTO \<Rightarrow> ETLJobDTO) \<Rightarrow> engine \<Rightarrow> engine" where
  "updateJob job f e = e\<lparr>heap := (heap e)(job := f (heap e job))\<rparr>"

text \<open>
  An assignment \<^verbatim>\<open>job.progress.p = v\<close>: a \<^verbatim>\<open>TypeError\<close> when the job has no progress
  record.
\<close>

definition setProgress ::
  "runtime \<Rightarrow> string \<Rightarrow> (ETLProgress \<Rightarrow> ETLProgress) \<Rightarrow> nat \<Rightarrow> engine \<Rightarrow> thrown + engine" where
  "setProgress js p f job e =
     (case progress (heap e job) of
        None \<Rightarrow> Inl (Error (cannotSetMessage js p))
      | Some pr \<Rightarrow> Inr (updateJob job (\<lambda>j. j\<lparr>progress := Some (f pr)\<rparr>) e))"

subsection \<open>cancelJob\<close>

text \<open>\<open>now\<close> is the reading of the clock.\<close>

definition cancelJob :: "string \<Rightarrow> string \<Rightarrow> engine \<Rightarrow> bool \<times> engine" where
  "cancelJob now jobId e =
     (case jobs e jobId of
        None \<Rightarrow> (False, e)
      | Some job \<Rightarrow>
          if jobId \<in> activeJobs e
          then (True,
                (updateJob job (\<lambda>j. j\<lparr>status := Cancelled, completedAt := Some now\<rparr>) e)
                  \<lparr>activeJobs := activeJobs e - {jobId},
                   jobs := (jobs e)(jobId \<mapsto> job)\<rparr>)
          else (False, e))"

definition isJobRunning :: "string \<Rightarrow> engine \<Rightarrow> bool" where
  "isJobRunning jobId e = (jobId \<in> activeJobs e)"

definition getJob :: "string \<Rightarrow> engine \<Rightarrow> ETLJobDTO option" where
  "getJob jobId e = map_option (heap e) (jobs e jobId)"

subsection \<open>executeJob\<close>

text \<open>
  \<open>executeJob\<close> is an \<^verbatim>\<open>async\<close> function: it runs without interruption up to an
  \<^verbatim>\<open>await\<close>, and while it is suspended there the rest of the program may run and
  change the engine. The three awaited phases are the three suspensions of a run; what
  the rest of the program does to the engine during each is a parameter.
\<close>

record suspensions =
  duringExtract :: "engine \<Rightarrow> engine"
  duringTransform :: "engine \<Rightarrow> engine"
  duringLoad :: "engine \<Rightarrow> engine"

text \<open>The statements of the \<^verbatim>\<open>try\<close> block before the call of \<open>extract\<close>.\<close>

definition beginRun :: "string \<Rightarrow> string \<Rightarrow> nat \<Rightarrow> engine \<Rightarrow> engine" where
  "beginRun now jobId job e =
     (let e1 = updateJob job (\<lambda>j. j\<lparr>status := Running, startedAt := Some now,
                 progress := Some \<lparr>totalRecords = 0, processedRecords = 0,
                   successfulRecords = 0, failedRecords = 0, percentage = 0,
                   currentPhase = ''extract''\<rparr>\<rparr>) e;
          e2 = e1\<lparr>jobs := (jobs e1)(jobId \<mapsto> job)\<rparr>
      in updateJob job (\<lambda>j. j\<lparr>progress :=
            map_option (\<lambda>pr. pr\<lparr>currentPhase := ''extract''\<rparr>) (progress j)\<rparr>) e2)"

text \<open>The statements between two phases, and those after the last.\<close>

definition afterExtract :: "runtime \<Rightarrow> WebhookRequest list \<Rightarrow> nat \<Rightarrow> engine \<Rightarrow> thrown + engine" where
  "afterExtract js extractedData job e =
     (case setProgress js ''totalRecords'' (\<lambda>pr. pr\<lparr>totalRecords := length extractedData\<rparr>) job e of
        Inl err \<Rightarrow> Inl err
      | Inr e1 \<Rightarrow> setProgress js ''currentPhase'' (\<lambda>pr. pr\<lparr>currentPhase := ''transform''\<rparr>) job e1)"

definition afterTransform :: "runtime \<Rightarrow> obj list \<Rightarrow> nat \<Rightarrow> engine \<Rightarrow> thrown + engine" where
  "afterTransform js transformedData job e =
     (case setProgress js ''processedRecords'' (\<lambda>pr. pr\<lparr>processedRecords := length transformedData\<rparr>) job e of
        Inl err \<Rightarrow> Inl err
      | Inr e1 \<Rightarrow> setProgress js ''currentPhase'' (\<lambda>pr. pr\<lparr>currentPhase := ''load''\<rparr>) job e1)"

definition afterLoad :: "runtime \<Rightarrow> obj list \<Rightarrow> string \<Rightarrow> nat \<Rightarrow> engine \<Rightarrow> thrown + engine" where
  "afterLoad js transformedData now job e =
     (case setProgress js ''successfulRecords'' (\<lambda>pr. pr\<lparr>successfulRecords := length transformedData\<rparr>) job e of
        Inl err \<Rightarrow> Inl err
      | Inr e1 \<Rightarrow>
         (case setProgress js ''percentage'' (\<lambda>pr. pr\<lparr>percentage := 100\<rparr>) job e1 of
            Inl err \<Rightarrow> Inl err
          | Inr e2 \<Rightarrow>
              setProgress js ''currentPhase'' (\<lambda>pr. pr\<lparr>currentPhase := ''completed''\<rparr>) job
                (updateJob job (\<lambda>j. j\<lparr>status := Completed, completedAt := Some now\<rparr>) e2)))"

text \<open>
  The \<^verbatim>\<open>try\<close> block, cut at its three \<^verbatim>\<open>await\<close>s: \<open>tryBlock\<close> runs up to the
  call of \<open>extract\<close>, and each \<open>resumeAfter\<close> function is the run from the return of
  one phase on. The result is the thrown value, if any, the engine where the block
  stopped, and for each suspension the engine when the run suspended and the engine
  when it resumed (\<open>seen\<close>). The arguments of a phase are read when the phase is
  called, before the suspension.
\<close>

definition resumeAfterLoad ::
  "runtime \<Rightarrow> string \<Rightarrow> nat \<Rightarrow> obj list \<Rightarrow> (engine \<times> engine) list \<Rightarrow> engine
     \<Rightarrow> thrown option \<times> engine \<times> (engine \<times> engine) list" where
  "resumeAfterLoad js endNow job transformedData seen r3 =
     (case afterLoad js transformedData endNow job r3 of
        Inl err \<Rightarrow> (Some err, r3, seen)
      | Inr s4 \<Rightarrow> (None, s4, seen))"

definition resumeAfterTransform ::
  "runtime \<Rightarrow> world \<Rightarrow> suspensions \<Rightarrow> string \<Rightarrow> nat \<Rightarrow> obj list \<Rightarrow> (engine \<times> engine) list
     \<Rightarrow> engine \<Rightarrow> thrown option \<times> engine \<times> (engine \<times> engine) list" where
  "resumeAfterTransform js w susp endNow job transformedData seen r2 =
     (case afterTransform js transformedData job r2 of
        Inl err \<Rightarrow> (Some err, r2, seen)
      | Inr s3 \<Rightarrow>
          (let loaded = load w transformedData (destination (heap s3 job));
               r3 = duringLoad susp s3
           in case snd loaded of
                Some err \<Rightarrow> (Some err, r3, seen @ [(s3, r3)])
              | None \<Rightarrow> resumeAfterLoad js endNow job transformedData (seen @ [(s3, r3)]) r3))"

definition resumeAfterExtract ::
  "runtime \<Rightarrow> otherTransformations \<Rightarrow> world \<Rightarrow> suspensions \<Rightarrow> string \<Rightarrow> nat
     \<Rightarrow> WebhookRequest list \<Rightarrow> (engine \<times> engine) list \<Rightarrow> engine
     \<Rightarrow> thrown option \<times> engine \<times> (engine \<times> engine) list" where
  "resumeAfterExtract js ops w susp endNow job extractedData seen r1 =
     (case afterExtract js extractedData job r1 of
        Inl err \<Rightarrow> (Some err, r1, seen)
      | Inr s2 \<Rightarrow>
          (let transformed = transform js ops (map (asObject w) extractedData)
                               (transformations (heap s2 job));
               r2 = duringTransform susp s2
           in case transformed of
                Inl err \<Rightarrow> (Some err, r2, seen @ [(s2, r2)])
              | Inr transformedData \<Rightarrow>
                  resumeAfterTransform js w susp endNow job transformedData
                    (seen @ [(s2, r2)]) r2))"

definition tryBlock ::
  "runtime \<Rightarrow> otherTransformations \<Rightarrow> world \<Rightarrow> suspensions \<Rightarrow> string \<Rightarrow> string \<Rightarrow> string \<Rightarrow> nat
     \<Rightarrow> engine \<Rightarrow> thrown option \<times> engine \<times> (engine \<times> engine) list" where
  "tryBlock js ops w susp startNow endNow jobId job e =
     (let s1 = beginRun startNow jobId job e;
          extracted = extract' js w (filters (heap s1 job));
          r1 = duringExtract susp s1
      in case extracted of
           Inl err \<Rightarrow> (Some err, r1, [(s1, r1)])
         | Inr extractedData \<Rightarrow>
             resumeAfterExtract js ops w susp endNow job extractedData [(s1, r1)] r1)"

definition errorMessage :: "thrown \<Rightarrow> string" where
  "errorMessage err = (case err of Error m \<Rightarrow> m | NonError \<Rightarrow> ''Unknown error'')"

definition catchBlock :: "thrown \<Rightarrow> string \<Rightarrow> nat \<Rightarrow> engine \<Rightarrow> engine" where
  "catchBlock err now job e =
     updateJob job (\<lambda>j. j\<lparr>status := Failed, error := Some (errorMessage err),
                          completedAt := Some now\<rparr>) e"

definition finallyBlock :: "string \<Rightarrow> nat \<Rightarrow> engine \<Rightarrow> engine" where
  "finallyBlock jobId job e =
     e\<lparr>activeJobs := activeJobs e - {jobId}, jobs := (jobs e)(jobId \<mapsto> job)\<rparr>"

text \<open>
  The outcome of a call: the error with which the promise rejects (\<open>None\<close> when it
  resolves), the engine at the end, and the suspensions of the run as the \<^verbatim>\<open>try\<close>
  block reports them. The rest of the program sees the engine only at the suspensions
  and at the end.
\<close>

record run =
  rejected :: "thrown option"
  final :: engine
  suspended :: "(engine \<times> engine) list"

definition executeJob ::
  "runtime \<Rightarrow> otherTransformations \<Rightarrow> world \<Rightarrow> suspensions \<Rightarrow> string \<Rightarrow> string \<Rightarrow> nat
     \<Rightarrow> engine \<Rightarrow> run" where
  "executeJob js ops w susp startNow endNow job e =
     (let jobId = id' (heap e job) in
      if jobId \<in> activeJobs e
      then \<lparr>rejected = Some (Error (''Job '' @ jobId @ '' is already running'')),
            final = e, suspended = []\<rparr>
      else
        (case tryBlock js ops w susp startNow endNow jobId job
                (e\<lparr>activeJobs := insert jobId (activeJobs e)\<rparr>) of
           (None, e1, seen) \<Rightarrow>
             \<lparr>rejected = None, final = finallyBlock jobId job e1, suspended = seen\<rparr>
         | (Some err, e1, seen) \<Rightarrow>
             \<lparr>rejected = Some err,
              final = finallyBlock jobId job (catchBlock err endNow job e1),
              suspended = seen\<rparr>))"

text \<open>Nothing else runs during the suspensions of a run.\<close>

definition undisturbed :: suspensions where
  "undisturbed = \<lparr>duringExtract = (\<lambda>e. e), duringTransform = (\<lambda>e. e), duringLoad = (\<lambda>e. e)\<rparr>"

section \<open>The properties of the specification\<close>

subsection \<open>The sub-predicates of a FilterSpec\<close>

text \<open>
  The specification describes a FilterSpec as a conjunction of seven optional
  predicates. Each is written here on its own: an absent predicate holds, an empty
  list of allowed values counts as absent, and a record that lacks the field a present
  predicate asks for does not match: so a header condition fails on a record that has
  no header of that name. The date predicate is the date check of the
  filter callback; what it amounts to is the subject of claim C6.
\<close>

definition datePredicate :: "runtime \<Rightarrow> ETLFilters \<Rightarrow> WebhookRequest \<Rightarrow> bool" where
  "datePredicate js S R =
     (case dateRange S of None \<Rightarrow> True | Some dr \<Rightarrow> \<not> dateRangeRejects js dr R)"

definition methodPredicate :: "ETLFilters \<Rightarrow> WebhookRequest \<Rightarrow> bool" where
  "methodPredicate S R =
     (case methods S of None \<Rightarrow> True | Some ms \<Rightarrow> ms = [] \<or> method' R \<in> set ms)"

definition contentTypePredicate :: "ETLFilters \<Rightarrow> WebhookRequest \<Rightarrow> bool" where
  "contentTypePredicate S R =
     (case contentTypes S of None \<Rightarrow> True
      | Some cts \<Rightarrow> cts = [] \<or>
          (case contentType R of None \<Rightarrow> False
           | Some c \<Rightarrow> c \<noteq> [] \<and> list_ex (includes' c) cts))"

definition ipPredicate :: "ETLFilters \<Rightarrow> WebhookRequest \<Rightarrow> bool" where
  "ipPredicate S R =
     (case ipAddresses S of None \<Rightarrow> True
      | Some ips \<Rightarrow> ips = [] \<or>
          (case ip R of None \<Rightarrow> False | Some a \<Rightarrow> a \<noteq> [] \<and> a \<in> set ips))"

definition userAgentPredicate :: "ETLFilters \<Rightarrow> WebhookRequest \<Rightarrow> bool" where
  "userAgentPredicate S R =
     (case userAgents S of None \<Rightarrow> True
      | Some uas \<Rightarrow> uas = [] \<or>
          (case userAgent R of None \<Rightarrow> False
           | Some u \<Rightarrow> u \<noteq> [] \<and> list_ex (includes' u) uas))"

definition bodyPredicate :: "ETLFilters \<Rightarrow> WebhookRequest \<Rightarrow> bool" where
  "bodyPredicate S R =
     (case bodyContains S of None \<Rightarrow> True | Some b \<Rightarrow> includes' (body R) b)"

definition headerConditionHolds :: "runtime \<Rightarrow> WebhookRequest \<Rightarrow> headerCondition \<Rightarrow> bool" where
  "headerConditionHolds js R c =
     (case headers R (key c) of
        None \<Rightarrow> False
      | Some hv \<Rightarrow> hv \<noteq> [] \<and>
          (case operator c of
             Equals \<Rightarrow> hv = val c
           | Contains \<Rightarrow> includes' hv (val c)
           | Regex \<Rightarrow> regexTest js (val c) hv = Some True
           | OtherOperator \<Rightarrow> True))"

definition headerPredicate :: "runtime \<Rightarrow> ETLFilters \<Rightarrow> WebhookRequest \<Rightarrow> bool" where
  "headerPredicate js S R =
     (case headerConditions S of None \<Rightarrow> True
      | Some cs \<Rightarrow> list_all (headerConditionHolds js R) cs)"

text \<open>
  Every header that a condition names is a header of the record or a name that no
  object inherits.
\<close>

definition ownHeaders :: "ETLFilters \<Rightarrow> WebhookRequest \<Rightarrow> bool" where
  "ownHeaders S R =
     (case headerConditions S of None \<Rightarrow> True
      | Some cs \<Rightarrow>
          list_all (\<lambda>c. headers R (key c) \<noteq> None \<or> key c \<notin> set objectPrototypeNames) cs)"

definition allPredicates :: "runtime \<Rightarrow> ETLFilters \<Rightarrow> WebhookRequest \<Rightarrow> bool" where
  "allPredicates js S R =
     (datePredicate js S R \<and> methodPredicate S R \<and> contentTypePredicate S R \<and>
      ipPredicate S R \<and> userAgentPredicate S R \<and> bodyPredicate S R \<and>
      headerPredicate js S R)"

subsection \<open>Groups of an aggregate step\<close>


subsection \<open>The job lifecycle\<close>

text \<open>
  The error of the first phase that fails when extract, transform and load run in
  sequence on the filters, transformations and destination of a job.
\<close>

definition phaseFailure ::
  "runtime \<Rightarrow> otherTransformations \<Rightarrow> world \<Rightarrow> ETLJobDTO \<Rightarrow> thrown option" where
  "phaseFailure js ops w jb =
     (case extract' js w (filters jb) of
        Inl err \<Rightarrow> Some err
      | Inr xs \<Rightarrow>
          (case transform js ops (map (asObject w) xs) (transformations jb) of
             Inl err \<Rightarrow> Some err
           | Inr ys \<Rightarrow> snd (load w ys (destination jb))))"

text \<open>
  The second engine differs from the first at most in the record of one job, in the
  entry of its id and in whether its id is active.
\<close>

definition touchesOnly :: "nat \<Rightarrow> string \<Rightarrow> engine \<Rightarrow> engine \<Rightarrow> bool" where
  "touchesOnly job jobId e e' =
     ((\<forall>r. r \<noteq> job \<longrightarrow> heap e' r = heap e r) \<and>
      (\<forall>i. i \<noteq> jobId \<longrightarrow> jobs e' i = jobs e i \<and> (i \<in> activeJobs e' \<longleftrightarrow> i \<in> activeJobs e)))"

text \<open>
  The rest of the program calls \<open>cancelJob\<close> during the suspension number \<open>p\<close> of a
  run (0 for extract, 1 for transform, 2 for load) and does nothing during the others.
\<close>

definition cancelling :: "string \<Rightarrow> string \<Rightarrow> engine \<Rightarrow> engine" where
  "cancelling now jobId e = snd (cancelJob now jobId e)"

definition cancelDuring :: "nat \<Rightarrow> string \<Rightarrow> string \<Rightarrow> suspensions" where
  "cancelDuring p now jobId =
     \<lparr>duringExtract = (if p = 0 then cancelling now jobId else (\<lambda>e. e)),
      duringTransform = (if p = 1 then cancelling now jobId else (\<lambda>e. e)),
      duringLoad = (if p = 2 then cancelling now jobId else (\<lambda>e. e))\<rparr>"

text \<open>
  While a run is suspended in extract, the rest of the program calls \<open>cancelJob\<close>
  for the job and then \<open>executeJob\<close> on the same job record, as the dispatcher of
  the admin actions does for \<^verbatim>\<open>cancel_etl_job\<close> and \<^verbatim>\<open>execute_etl_job\<close>, and this
  second run ends, undisturbed, before the first resumes.
\<close>

definition rerunDuringExtract ::
  "runtime \<Rightarrow> otherTransformations \<Rightarrow> world \<Rightarrow> string \<Rightarrow> string \<Rightarrow> string \<Rightarrow>
     string \<Rightarrow> nat \<Rightarrow> suspensions" where
  "rerunDuringExtract js ops w tc t0 t1 jobId j =
     \<lparr>duringExtract =
        (\<lambda>e. final (executeJob js ops w undisturbed t0 t1 j (cancelling tc jobId e))),
      duringTransform = (\<lambda>e. e),
      duringLoad = (\<lambda>e. e)\<rparr>"

text \<open>
  What runs during a suspension leaves the record of the job \<open>j\<close> as it is or
  cancels the job, whatever else it does to the engine; and this holds for each of the
  three suspensions. It rules out only another execution of the same job.
\<close>

definition leavesJob :: "nat \<Rightarrow> (engine \<Rightarrow> engine) \<Rightarrow> bool" where
  "leavesJob j h =
     (\<forall>e. heap (h e) j = heap e j \<or>
          (\<exists>now. heap (h e) j = (heap e j)\<lparr>status := Cancelled, completedAt := Some now\<rparr>))"

definition leaveJob :: "nat \<Rightarrow> suspensions \<Rightarrow> bool" where
  "leaveJob j susp =
     (leavesJob j (duringExtract susp) \<and> leavesJob j (duringTransform susp) \<and>
      leavesJob j (duringLoad susp))"

text \<open>
  Status and phase of a job agree: the job has a progress record, a running job is in
  one of the three phases, and the job is completed exactly when its phase is. A job
  that is cancelled while its run goes on, and a job that failed, are in one of the
  three phases as well; the job is not pending.
\<close>

definition consistent :: "ETLJobDTO \<Rightarrow> bool" where
  "consistent jb =
     (case progress jb of
        None \<Rightarrow> False
      | Some p \<Rightarrow>
          (status jb = Running \<longrightarrow> currentPhase p \<in> {''extract'', ''transform'', ''load''}) \<and>
          (status jb = Completed \<longleftrightarrow> currentPhase p = ''completed'') \<and>
          (status jb = Cancelled \<or> status jb = Failed \<longrightarrow>
             currentPhase p \<in> {''extract'', ''transform'', ''load''}) \<and>
          status jb \<noteq> Pending)"

definition percentageOf :: "ETLJobDTO \<Rightarrow> nat" where
  "percentageOf jb = (case progress jb of None \<Rightarrow> 0 | Some p \<Rightarrow> percentage p)"

text \<open>
  The engines that the rest of the program can see during a run, in order: at each
  suspension the one in which the run suspended and the one in which it resumed, and
  the one at the end.
\<close>

definition observable :: "run \<Rightarrow> engine list" where
  "observable r = concat (map (\<lambda>(s, s'). [s, s']) (suspended r)) @ [final r]"

text \<open>
  The endpoints whose requests an extract reads, the scoped one or all of them, and
  the \<open>totalRecords\<close> of a job (0 while it has no progress record).
\<close>

definition endpointsRead :: "ETLFilters option \<Rightarrow> string list \<Rightarrow> string list" where
  "endpointsRead f ids = (case scopedWebhook f of Some wid \<Rightarrow> [wid] | None \<Rightarrow> ids)"

definition totalOf :: "ETLJobDTO \<Rightarrow> nat" where
  "totalOf jb = (case progress jb of None \<Rightarrow> 0 | Some p \<Rightarrow> totalRecords p)"

subsection \<open>Invariants of the proofs\<close>

text \<open>
  Two relations between the engine at a resumption and the engine at the next
  suspension or at the end of the \<^verbatim>\<open>try\<close> block: only the progress of the job moved
  on to the phase \<open>ph\<close>, or the job was marked completed.
\<close>

definition advanced :: "nat \<Rightarrow> string \<Rightarrow> engine \<Rightarrow> engine \<Rightarrow> bool" where
  "advanced j ph r s =
     (\<exists>p p'. progress (heap r j) = Some p \<and>
         s = updateJob j (\<lambda>jb. jb\<lparr>progress := Some p'\<rparr>) r \<and>
         percentage p' = percentage p \<and> currentPhase p' = ph)"

definition finished :: "nat \<Rightarrow> string \<Rightarrow> engine \<Rightarrow> engine \<Rightarrow> bool" where
  "finished j now r s =
     (\<exists>p p'. progress (heap r j) = Some p \<and>
         s = updateJob j (\<lambda>jb. jb\<lparr>status := Completed, completedAt := Some now,
                                progress := Some p'\<rparr>) r \<and>
         percentage p' = 100 \<and> currentPhase p' = ''completed'')"

text \<open>
  The job record between the start and the end of the \<^verbatim>\<open>try\<close> block, and an
  engine in which the job is entered under its id and its id is active.
\<close>

definition midRun :: "ETLJobDTO \<Rightarrow> bool" where
  "midRun jb =
     (\<exists>p. progress jb = Some p \<and> percentage p = 0 \<and>
          currentPhase p \<in> {''extract'', ''transform'', ''load''} \<and>
          (status jb = Running \<or> status jb = Cancelled))"

definition registered :: "nat \<Rightarrow> string \<Rightarrow> engine \<Rightarrow> bool" where
  "registered j jobId e = (jobs e jobId = Some j \<and> jobId \<in> activeJobs e)"

subsection \<open>Inputs of the examples\<close>

text \<open>
  A runtime that is right on the inputs of the examples. The two dates it knows parse
  to their time values, and the other strings it is asked about there are not dates.
  A pattern of plain characters matches the strings that contain it, and \<^verbatim>\<open>(\<close>
  is not a pattern. A string is its own property key; nothing else is used as a key.
  A built-in function converts to its source text, which names it and hides its body.
\<close>

definition exampleRuntime :: runtime where
  "exampleRuntime =
     \<lparr>parseDate = (\<lambda>s. if s = ''1970-01-01T00:00:00.000Z'' then Some 0
                       else if s = ''1970-01-01T00:00:02.000Z'' then Some 2000
                       else None),
      regexTest = (\<lambda>p s. if p = ''('' then None else Some (includes' s p)),
      toPropertyKey = (\<lambda>v. case v of JStr s \<Rightarrow> s | _ \<Rightarrow> []),
      cannotSetMessage = (\<lambda>p. ''Cannot set properties of undefined (setting '' @ p @ '')''),
      nativeText = (\<lambda>n. if n = ''constructor'' then ''function Object() { [native code] }''
                        else if n = ''__proto__'' then ''[object Object]''
                        else ''function '' @ n @ ''() { [native code] }''),
      notAFunctionMessage = (\<lambda>x. x @ '' is not a function'')\<rparr>"

text \<open>
  A request with a method and a timestamp, a filter specification without
  predicates, a job with an optional destination, and an engine that holds this job
  at every address and in which no job is entered or active.
\<close>

definition exampleRequest :: "string \<Rightarrow> int \<Rightarrow> WebhookRequest" where
  "exampleRequest m t =
     \<lparr>method' = m, headers = Map.empty, body = ''{}'', timestamp = Some t,
      ip = None, userAgent = None, contentType = None\<rparr>"

definition noFilters :: ETLFilters where
  "noFilters =
     \<lparr>webhookId = None, dateRange = None, methods = None, contentTypes = None,
      ipAddresses = None, userAgents = None, bodyContains = None,
      headerConditions = None\<rparr>"

definition exampleJob :: "ETLDestination option \<Rightarrow> ETLJobDTO" where
  "exampleJob d =
     \<lparr>id' = ''job-1'', status = Pending, filters = None, transformations = None,
      destination = d, startedAt = None, completedAt = None, progress = None,
      error = None\<rparr>"

definition exampleEngine :: "ETLDestination option \<Rightarrow> engine" where
  "exampleEngine d = \<lparr>heap = (\<lambda>r. exampleJob d), jobs = Map.empty, activeJobs = {}\<rparr>"

definition exampleDatabase :: ETLDestination where
  "exampleDatabase = \<lparr>ETLDestination.type' = ''database'', ETLDestination.config = []\<rparr>"

text \<open>
  Steps and a transformation with given type, configuration, flag and order. The
  three steps that are parameters return their input in the examples.
\<close>

definition exampleSteps :: otherTransformations where
  "exampleSteps =
     \<lparr>mapTransformation = (\<lambda>data cfg. Inr data),
      enrichTransformation = (\<lambda>data cfg. Inr data),
      validateTransformation = (\<lambda>data cfg. Inr data)\<rparr>"


text \<open>
  A world with no endpoints, and one with a single endpoint, for which the storage
  holds 1001 requests and serves the first \<open>n\<close> of them when asked for \<open>n\<close>. No
  outbound call fails. In the run \<open>exampleOverlap\<close> of the example job, started at
  second 0 in the world with no endpoints, the job is cancelled at second 1 during
  extract and executed again from second 2 to second 3; the first run ends at second 5.
\<close>

definition exampleWorld :: world where
  "exampleWorld =
     \<lparr>getStorageManager = None,
      getRequests = (\<lambda>i n. Inr []),
      getAllWebhookConfigs = Inr [],
      asObject = (\<lambda>r. [(''method'', JStr (method' r))]),
      fetch = (\<lambda>n c. None)\<rparr>"

definition exampleOverlap :: run where
  "exampleOverlap =
     executeJob exampleRuntime exampleSteps exampleWorld
       (rerunDuringExtract exampleRuntime exampleSteps exampleWorld
          ''2024-01-01T00:00:01.000Z'' ''2024-01-01T00:00:02.000Z''
          ''2024-01-01T00:00:03.000Z'' ''job-1'' 0)
       ''2024-01-01T00:00:00.000Z'' ''2024-01-01T00:00:05.000Z'' 0 (exampleEngine None)"

definition exampleStored :: "string \<Rightarrow> WebhookRequest list" where
  "exampleStored i = replicate 1000 (exampleRequest ''GET'' 0) @ [exampleRequest ''POST'' 1]"

definition exampleStore :: world where
  "exampleStore =
     \<lparr>getStorageManager = None,
      getRequests = (\<lambda>i n. Inr (take n (exampleStored i))),
      getAllWebhookConfigs = Inr [''hook-1''],
      asObject = (\<lambda>r. [(''method'', JStr (method' r))]),
      fetch = (\<lambda>n c. None)\<rparr>"

section \<open>Proofs\<close>

subsection \<open>The filter evaluator\<close>

lemma includes'_Nil: "includes' s []"
  by (cases s) simp_all

lemma headerLoop_list_all:
  "list_all (\<lambda>c. headers R (key c) \<noteq> None \<or> key c \<notin> set objectPrototypeNames) cs \<Longrightarrow>
     headerLoop js R cs = Inr (list_all (headerConditionHolds js R) cs)"
  by (induction cs) (auto simp: headerConditionHolds_def split: option.splits operator.splits)

lemma filterArray_filter:
  "list_all (\<lambda>x. f x = Inr (p x)) xs \<Longrightarrow> filterArray f xs = Inr (filter p xs)"
  by (induction xs) simp_all

lemma matches_allPredicates:
  assumes "ownHeaders S R"
  shows "matches js S R = Inr (allPredicates js S R)"
proof -
  have d: "(case dateRange S of None \<Rightarrow> False | Some dr \<Rightarrow> dateRangeRejects js dr R)
             = (\<not> datePredicate js S R)"
    by (simp add: datePredicate_def split: option.splits)
  have m: "(case methods S of None \<Rightarrow> False
            | Some ms \<Rightarrow> length ms > 0 \<and> method' R \<notin> set ms) = (\<not> methodPredicate S R)"
    by (simp add: methodPredicate_def split: option.splits)
  have c: "(case contentTypes S of None \<Rightarrow> False
            | Some cts \<Rightarrow> length cts > 0 \<and>
                (case contentType R of None \<Rightarrow> True
                 | Some c \<Rightarrow> c = [] \<or> \<not> list_ex (\<lambda>ct. includes' c ct) cts))
             = (\<not> contentTypePredicate S R)"
    by (simp add: contentTypePredicate_def split: option.splits)
  have i: "(case ipAddresses S of None \<Rightarrow> False
            | Some ips \<Rightarrow> length ips > 0 \<and>
                (case ip R of None \<Rightarrow> True | Some a \<Rightarrow> a = [] \<or> a \<notin> set ips))
             = (\<not> ipPredicate S R)"
    by (simp add: ipPredicate_def split: option.splits)
  have u: "(case userAgents S of None \<Rightarrow> False
            | Some uas \<Rightarrow> length uas > 0 \<and>
                (case userAgent R of None \<Rightarrow> True
                 | Some u \<Rightarrow> u = [] \<or> \<not> list_ex (\<lambda>ua. includes' u ua) uas))
             = (\<not> userAgentPredicate S R)"
    by (simp add: userAgentPredicate_def split: option.splits)
  have b: "(case bodyContains S of None \<Rightarrow> False
            | Some b \<Rightarrow> b \<noteq> [] \<and> \<not> includes' (body R) b) = (\<not> bodyPredicate S R)"
    by (auto simp: bodyPredicate_def includes'_Nil split: option.splits)
  have h: "(case headerConditions S of None \<Rightarrow> Inr True
            | Some conds \<Rightarrow> if length conds > 0 then headerLoop js R conds else Inr True)
             = Inr (headerPredicate js S R)"
    using assms
    by (auto simp: headerPredicate_def ownHeaders_def headerLoop_list_all split: option.splits)
  show ?thesis
    unfolding matches_def allPredicates_def d m c i u b h by simp
qed

lemma matches_early:
  assumes "\<not> (datePredicate js S R \<and> methodPredicate S R \<and> contentTypePredicate S R \<and>
            ipPredicate S R \<and> userAgentPredicate S R \<and> bodyPredicate S R)"
  shows "matches js S R = Inr False"
proof -
  have d: "(case dateRange S of None \<Rightarrow> False | Some dr \<Rightarrow> dateRangeRejects js dr R)
             = (\<not> datePredicate js S R)"
    by (simp add: datePredicate_def split: option.splits)
  have m: "(case methods S of None \<Rightarrow> False
            | Some ms \<Rightarrow> length ms > 0 \<and> method' R \<notin> set ms) = (\<not> methodPredicate S R)"
    by (simp add: methodPredicate_def split: option.splits)
  have c: "(case contentTypes S of None \<Rightarrow> False
            | Some cts \<Rightarrow> length cts > 0 \<and>
                (case contentType R of None \<Rightarrow> True
                 | Some c \<Rightarrow> c = [] \<or> \<not> list_ex (\<lambda>ct. includes' c ct) cts))
             = (\<not> contentTypePredicate S R)"
    by (simp add: contentTypePredicate_def split: option.splits)
  have i: "(case ipAddresses S of None \<Rightarrow> False
            | Some ips \<Rightarrow> length ips > 0 \<and>
                (case ip R of None \<Rightarrow> True | Some a \<Rightarrow> a = [] \<or> a \<notin> set ips))
             = (\<not> ipPredicate S R)"
    by (simp add: ipPredicate_def split: option.splits)
  have u: "(case userAgents S of None \<Rightarrow> False
            | Some uas \<Rightarrow> length uas > 0 \<and>
                (case userAgent R of None \<Rightarrow> True
                 | Some u \<Rightarrow> u = [] \<or> \<not> list_ex (\<lambda>ua. includes' u ua) uas))
             = (\<not> userAgentPredicate S R)"
    by (simp add: userAgentPredicate_def split: option.splits)
  have b: "(case bodyContains S of None \<Rightarrow> False
            | Some b \<Rightarrow> b \<noteq> [] \<and> \<not> includes' (body R) b) = (\<not> bodyPredicate S R)"
    by (auto simp: bodyPredicate_def includes'_Nil split: option.splits)
  from assms show ?thesis
    unfolding matches_def d m c i u b by auto
qed

lemma methodPredicate_absent:
  "methods S = None \<or> methods S = Some [] \<Longrightarrow> methodPredicate S R"
  by (auto simp: methodPredicate_def)

lemma filterArray_throws:
  "f x = Inl err \<Longrightarrow> filterArray f (replicate (Suc n) x) = Inl err"
  by simp

lemma ownHeaders_method: "ownHeaders S (R\<lparr>method' := m\<rparr>) = ownHeaders S R"
  by (simp add: ownHeaders_def split: option.splits)

lemma headerLoop_method: "headerLoop js (R\<lparr>method' := m\<rparr>) cs = headerLoop js R cs"
  by (induction cs) (simp_all split: option.splits operator.splits)

lemma matches_method:
  assumes "methods S = None \<or> methods S = Some []"
  shows "matches js S (R\<lparr>method' := m\<rparr>) = matches js S R"
proof -
  have "(case methods S of None \<Rightarrow> False
         | Some ms \<Rightarrow> length ms > 0 \<and> method' (R\<lparr>method' := m\<rparr>) \<notin> set ms)
        = (case methods S of None \<Rightarrow> False
           | Some ms \<Rightarrow> length ms > 0 \<and> method' R \<notin> set ms)"
    using assms by auto
  then show ?thesis
    by (simp add: matches_def dateRangeRejects_def headerLoop_method
          cong: option.case_cong if_cong)
qed

text \<open>
  Claim C1. A header condition reads \<^verbatim>\<open>request.headers[condition.key]\<close> and takes
  a falsy value for a missing header. For a key such as \<^verbatim>\<open>constructor\<close>, which every
  header object inherits, a request without that header is not a no-match: the value is
  the built-in function. With the operator regex and the pattern \<^verbatim>\<open>native\<close> the
  request is kept, though the header predicate fails on it; with the operator contains
  the callback throws a \<^verbatim>\<open>TypeError\<close>, so no record is kept or excluded and the
  extract fails. The regex case catches what an invalid pattern throws and returns
  false; the contains case has no such guard. So the filter is not the conjunction of
  the seven predicates for every record and FilterSpec.
\<close>

theorem inherited_header_not_missing:
  "headers (exampleRequest ''GET'' 0) ''constructor'' = None
   \<and> allPredicates exampleRuntime (noFilters\<lparr>headerConditions := Some
         [\<lparr>key = ''constructor'', operator = Regex, val = ''native''\<rparr>]\<rparr>)
       (exampleRequest ''GET'' 0) = False
   \<and> applyFilters exampleRuntime [exampleRequest ''GET'' 0]
       (Some (noFilters\<lparr>headerConditions := Some
         [\<lparr>key = ''constructor'', operator = Regex, val = ''native''\<rparr>]\<rparr>))
       = Inr [exampleRequest ''GET'' 0]
   \<and> applyFilters exampleRuntime [exampleRequest ''GET'' 0]
       (Some (noFilters\<lparr>headerConditions := Some
         [\<lparr>key = ''constructor'', operator = Contains, val = ''x''\<rparr>]\<rparr>))
       = Inl (Error ''headerValue.includes is not a function'')
   \<and> extract' exampleRuntime exampleStore
       (Some (noFilters\<lparr>headerConditions := Some
         [\<lparr>key = ''constructor'', operator = Contains, val = ''x''\<rparr>]\<rparr>))
       = Inl (Error ''headerValue.includes is not a function'')"
proof -
  have a: "headers (exampleRequest ''GET'' 0) ''constructor'' = None"
    by (simp add: exampleRequest_def)
  have b: "allPredicates exampleRuntime (noFilters\<lparr>headerConditions := Some
         [\<lparr>key = ''constructor'', operator = Regex, val = ''native''\<rparr>]\<rparr>)
       (exampleRequest ''GET'' 0) = False"
    by (simp add: allPredicates_def headerPredicate_def headerConditionHolds_def
          exampleRequest_def noFilters_def)
  have c: "applyFilters exampleRuntime [exampleRequest ''GET'' 0]
       (Some (noFilters\<lparr>headerConditions := Some
         [\<lparr>key = ''constructor'', operator = Regex, val = ''native''\<rparr>]\<rparr>))
       = Inr [exampleRequest ''GET'' 0]"
    by (simp add: applyFilters_def matches_def noFilters_def exampleRequest_def
          objectPrototypeNames_def exampleRuntime_def)
  have d: "applyFilters exampleRuntime [exampleRequest ''GET'' 0]
       (Some (noFilters\<lparr>headerConditions := Some
         [\<lparr>key = ''constructor'', operator = Contains, val = ''x''\<rparr>]\<rparr>))
       = Inl (Error ''headerValue.includes is not a function'')"
    by (simp add: applyFilters_def matches_def noFilters_def exampleRequest_def
          objectPrototypeNames_def exampleRuntime_def)
  have m: "matches exampleRuntime (noFilters\<lparr>headerConditions := Some
         [\<lparr>key = ''constructor'', operator = Contains, val = ''x''\<rparr>]\<rparr>) (exampleRequest ''GET'' 0)
       = Inl (Error ''headerValue.includes is not a function'')"
    by (simp add: matches_def noFilters_def exampleRequest_def
          objectPrototypeNames_def exampleRuntime_def)
  have e: "extract' exampleRuntime exampleStore
       (Some (noFilters\<lparr>headerConditions := Some
         [\<lparr>key = ''constructor'', operator = Contains, val = ''x''\<rparr>]\<rparr>))
       = Inl (Error ''headerValue.includes is not a function'')"
  proof -
    have "(1000::nat) = Suc 999" by simp
    with m have "filterArray (matches exampleRuntime (noFilters\<lparr>headerConditions := Some
         [\<lparr>key = ''constructor'', operator = Contains, val = ''x''\<rparr>]\<rparr>))
         (replicate 1000 (exampleRequest ''GET'' 0))
       = Inl (Error ''headerValue.includes is not a function'')"
      by (simp only: filterArray_throws)
    then show ?thesis
      by (simp add: extract'_def scopedWebhook_def exampleStore_def noFilters_def
          exampleStored_def applyFilters_def)
  qed
  from a b c d e show ?thesis by blast
qed

text \<open>
  Apart from that the filter is the conjunction. Let every header that a condition
  names be a header of the record or a name that no object inherits. Then the callback
  returns true exactly when all seven predicates hold, so \<open>applyFilters\<close> keeps the
  records on which all hold and excludes a record on which any one fails. Whatever
  the header conditions are, a record on which one of the other six predicates fails
  is excluded before the headers are read. A predicate whose field is absent holds.
  When the list of methods is absent or empty the method predicate holds and the
  verdict does not depend on the record's method.
\<close>

lemma applyFilters_conjunction:
  "(ownHeaders S R \<longrightarrow> matches js S R = Inr (allPredicates js S R))
   \<and> (list_all (ownHeaders S) Rs \<longrightarrow>
        applyFilters js Rs (Some S) = Inr (filter (allPredicates js S) Rs))
   \<and> (\<not> (datePredicate js S R \<and> methodPredicate S R \<and> contentTypePredicate S R \<and>
          ipPredicate S R \<and> userAgentPredicate S R \<and> bodyPredicate S R) \<longrightarrow>
        matches js S R = Inr False)
   \<and> (methods S = None \<or> methods S = Some [] \<longrightarrow>
        methodPredicate S R \<and> matches js S (R\<lparr>method' := m\<rparr>) = matches js S R)
   \<and> datePredicate js (S\<lparr>dateRange := None\<rparr>) R
   \<and> methodPredicate (S\<lparr>methods := None\<rparr>) R
   \<and> contentTypePredicate (S\<lparr>contentTypes := None\<rparr>) R
   \<and> ipPredicate (S\<lparr>ipAddresses := None\<rparr>) R
   \<and> userAgentPredicate (S\<lparr>userAgents := None\<rparr>) R
   \<and> bodyPredicate (S\<lparr>bodyContains := None\<rparr>) R
   \<and> headerPredicate js (S\<lparr>headerConditions := None\<rparr>) R"
proof -
  have one: "ownHeaders S R \<longrightarrow> matches js S R = Inr (allPredicates js S R)"
    by (simp add: matches_allPredicates)
  have flt: "list_all (ownHeaders S) Rs \<longrightarrow>
        applyFilters js Rs (Some S) = Inr (filter (allPredicates js S) Rs)"
  proof
    assume "list_all (ownHeaders S) Rs"
    then have "list_all (\<lambda>x. matches js S x = Inr (allPredicates js S x)) Rs"
      by (simp add: list_all_iff matches_allPredicates)
    then show "applyFilters js Rs (Some S) = Inr (filter (allPredicates js S) Rs)"
      by (simp add: applyFilters_def filterArray_filter)
  qed
  have early: "\<not> (datePredicate js S R \<and> methodPredicate S R \<and> contentTypePredicate S R \<and>
          ipPredicate S R \<and> userAgentPredicate S R \<and> bodyPredicate S R) \<longrightarrow>
        matches js S R = Inr False"
    using matches_early by blast
  have meth: "methods S = None \<or> methods S = Some [] \<longrightarrow>
        methodPredicate S R \<and> matches js S (R\<lparr>method' := m\<rparr>) = matches js S R"
    using matches_method methodPredicate_absent by blast
  have absent:
    "datePredicate js (S\<lparr>dateRange := None\<rparr>) R"
    "methodPredicate (S\<lparr>methods := None\<rparr>) R"
    "contentTypePredicate (S\<lparr>contentTypes := None\<rparr>) R"
    "ipPredicate (S\<lparr>ipAddresses := None\<rparr>) R"
    "userAgentPredicate (S\<lparr>userAgents := None\<rparr>) R"
    "bodyPredicate (S\<lparr>bodyContains := None\<rparr>) R"
    "headerPredicate js (S\<lparr>headerConditions := None\<rparr>) R"
    by (simp_all add: datePredicate_def methodPredicate_def contentTypePredicate_def
          ipPredicate_def userAgentPredicate_def bodyPredicate_def headerPredicate_def)
  from one flt early meth absent show ?thesis by blast
qed

lemma jsLess_Some: "jsLess (Some x) (Some y) = (x < y)"
  by (simp add: jsLess_def)

lemma jsGreater_Some: "jsGreater (Some x) (Some y) = (y < x)"
  by (simp add: jsGreater_def)

lemma jsLess_None: "jsLess None b = False" "jsLess a None = False"
  by (simp_all add: jsLess_def split: option.splits)

lemma jsGreater_None: "jsGreater None b = False" "jsGreater a None = False"
  by (simp_all add: jsGreater_def split: option.splits)

lemmas jsCompare = jsLess_Some jsGreater_Some jsLess_None jsGreater_None

lemma matches_dateRange_only:
  "matches js (noFilters\<lparr>dateRange := Some dr\<rparr>) R = Inr (\<not> dateRangeRejects js dr R)"
  by (simp add: matches_def noFilters_def)

text \<open>
  Claim C6, as stated, fails: with a malformed start and a well-formed end, a record
  later than the end is excluded, so a malformed bound does not make the date
  predicate always-matching.
\<close>

theorem malformed_start_counterexample:
  "parseDate exampleRuntime ''not a date'' = None
   \<and> applyFilters exampleRuntime [exampleRequest ''GET'' 1000]
        (Some (noFilters\<lparr>dateRange :=
           Some \<lparr>start = ''not a date'', end' = ''1970-01-01T00:00:00.000Z''\<rparr>\<rparr>)) = Inr []"
  by (simp add: applyFilters_def matches_dateRange_only dateRangeRejects_def
        exampleRuntime_def exampleRequest_def jsCompare)

text \<open>
  Claim C6, amended. A record fails the date predicate exactly when its timestamp is
  valid and lies before a well-formed start or after a well-formed end. So with both
  bounds well-formed a record with a valid timestamp matches iff the timestamp lies in
  \<open>[start, end]\<close>, both ends included; a malformed bound puts no constraint on its
  side while the other bound is still enforced; the predicate always matches when
  both bounds are malformed, and also when the record's timestamp is invalid. The
  check is a total function: it never raises.
\<close>

theorem dateRange_bounds:
  "matches js (noFilters\<lparr>dateRange := Some dr\<rparr>) R = Inr (\<not> dateRangeRejects js dr R)
   \<and> dateRangeRejects js dr R =
       (case timestamp R of
          None \<Rightarrow> False
        | Some t \<Rightarrow>
            (case parseDate js (start dr) of None \<Rightarrow> False | Some s \<Rightarrow> t < s) \<or>
            (case parseDate js (end' dr) of None \<Rightarrow> False | Some e \<Rightarrow> e < t))
   \<and> (timestamp R = Some t \<and> parseDate js (start dr) = Some s
        \<and> parseDate js (end' dr) = Some e \<longrightarrow>
          matches js (noFilters\<lparr>dateRange := Some dr\<rparr>) R = Inr (s \<le> t \<and> t \<le> e))
   \<and> (timestamp R = Some t \<and> parseDate js (start dr) = None
        \<and> parseDate js (end' dr) = Some e \<longrightarrow>
          matches js (noFilters\<lparr>dateRange := Some dr\<rparr>) R = Inr (t \<le> e))
   \<and> (timestamp R = Some t \<and> parseDate js (start dr) = Some s
        \<and> parseDate js (end' dr) = None \<longrightarrow>
          matches js (noFilters\<lparr>dateRange := Some dr\<rparr>) R = Inr (s \<le> t))
   \<and> (parseDate js (start dr) = None \<and> parseDate js (end' dr) = None \<longrightarrow>
          matches js (noFilters\<lparr>dateRange := Some dr\<rparr>) R = Inr True)
   \<and> (timestamp R = None \<longrightarrow> matches js (noFilters\<lparr>dateRange := Some dr\<rparr>) R = Inr True)"
proof -
  have r: "dateRangeRejects js dr R =
       (case timestamp R of
          None \<Rightarrow> False
        | Some t \<Rightarrow>
            (case parseDate js (start dr) of None \<Rightarrow> False | Some s \<Rightarrow> t < s) \<or>
            (case parseDate js (end' dr) of None \<Rightarrow> False | Some e \<Rightarrow> e < t))"
    by (simp add: dateRangeRejects_def jsCompare split: option.splits)
  show ?thesis
    unfolding matches_dateRange_only
    by (intro conjI impI, simp, rule r) (auto simp: r split: option.splits)
qed

theorem dateRange_bounds_witness:
  "matches exampleRuntime (noFilters\<lparr>dateRange :=
       Some \<lparr>start = ''1970-01-01T00:00:00.000Z'', end' = ''1970-01-01T00:00:02.000Z''\<rparr>\<rparr>)
     (exampleRequest ''GET'' 2000) = Inr True
   \<and> matches exampleRuntime (noFilters\<lparr>dateRange :=
       Some \<lparr>start = ''1970-01-01T00:00:00.000Z'', end' = ''1970-01-01T00:00:02.000Z''\<rparr>\<rparr>)
     (exampleRequest ''GET'' 2001) = Inr False
   \<and> matches exampleRuntime (noFilters\<lparr>dateRange :=
       Some \<lparr>start = ''not a date'', end' = ''1970-01-01T00:00:02.000Z''\<rparr>\<rparr>)
     (exampleRequest ''GET'' 2001) = Inr False
   \<and> matches exampleRuntime (noFilters\<lparr>dateRange :=
       Some \<lparr>start = ''not a date'', end' = ''neither''\<rparr>\<rparr>)
     (exampleRequest ''GET'' 2001) = Inr True"
proof -
  let ?dr = "\<lparr>start = ''1970-01-01T00:00:00.000Z'', end' = ''1970-01-01T00:00:02.000Z''\<rparr>"
  let ?dh = "\<lparr>start = ''not a date'', end' = ''1970-01-01T00:00:02.000Z''\<rparr>"
  let ?dn = "\<lparr>start = ''not a date'', end' = ''neither''\<rparr>"
  have p: "parseDate exampleRuntime (start ?dr) = Some 0"
          "parseDate exampleRuntime (end' ?dr) = Some 2000"
          "parseDate exampleRuntime (start ?dh) = None"
          "parseDate exampleRuntime (end' ?dh) = Some 2000"
          "parseDate exampleRuntime (start ?dn) = None"
          "parseDate exampleRuntime (end' ?dn) = None"
    by (simp_all add: exampleRuntime_def)
  have t: "timestamp (exampleRequest ''GET'' 2000) = Some 2000"
          "timestamp (exampleRequest ''GET'' 2001) = Some 2001"
    by (simp_all add: exampleRequest_def)
  from p t dateRange_bounds [of exampleRuntime ?dr "exampleRequest ''GET'' 2000" 2000 0 2000]
  have a: "matches exampleRuntime (noFilters\<lparr>dateRange := Some ?dr\<rparr>) (exampleRequest ''GET'' 2000) = Inr True"
    by simp
  from p t dateRange_bounds [of exampleRuntime ?dr "exampleRequest ''GET'' 2001" 2001 0 2000]
  have b: "matches exampleRuntime (noFilters\<lparr>dateRange := Some ?dr\<rparr>) (exampleRequest ''GET'' 2001) = Inr False"
    by simp
  from p t dateRange_bounds [of exampleRuntime ?dh "exampleRequest ''GET'' 2001" 2001 0 2000]
  have c: "matches exampleRuntime (noFilters\<lparr>dateRange := Some ?dh\<rparr>) (exampleRequest ''GET'' 2001) = Inr False"
    by simp
  from p t dateRange_bounds [of exampleRuntime ?dn "exampleRequest ''GET'' 2001" 2001 0 2000]
  have d: "matches exampleRuntime (noFilters\<lparr>dateRange := Some ?dn\<rparr>) (exampleRequest ''GET'' 2001) = Inr True"
    by simp
  from a b c d show ?thesis by blast
qed

subsection \<open>The destination loader\<close>

text \<open>
  Claim C5. Without a destination \<open>load\<close> makes no outbound call and succeeds. With a
  destination whose type is none of webhook, file, email and api, and so with the type
  database, it makes no call and throws the error
  \<^verbatim>\<open>Unsupported destination type: ...\<close>.
\<close>

theorem load_destination:
  "load w data None = ([], None)
   \<and> (ETLDestination.type' d \<notin> {''webhook'', ''file'', ''email'', ''api''} \<longrightarrow>
        load w data (Some d) =
          ([], Some (Error (''Unsupported destination type: '' @ ETLDestination.type' d))))
   \<and> load w data (Some (d\<lparr>ETLDestination.type' := ''database''\<rparr>)) =
          ([], Some (Error ''Unsupported destination type: database''))"
  by (simp add: load_def)

theorem load_destination_witness:
  "ETLDestination.type' \<lparr>ETLDestination.type' = ''ftp'', ETLDestination.config = []\<rparr>
     \<notin> {''webhook'', ''file'', ''email'', ''api''}
   \<and> load exampleWorld [[(''method'', JStr ''GET'')]]
        (Some \<lparr>ETLDestination.type' = ''ftp'', ETLDestination.config = []\<rparr>) =
          ([], Some (Error ''Unsupported destination type: ftp''))"
  using load_destination [of exampleWorld "[[(''method'', JStr ''GET'')]]"
      "\<lparr>ETLDestination.type' = ''ftp'', ETLDestination.config = []\<rparr>"]
  by simp

subsection \<open>The filter step\<close>

text \<open>
  Claim C7, as stated, fails: with \<^verbatim>\<open>{field: 'bodySize', value: 0}\<close> both properties
  are present in the configuration, the record's \<open>bodySize\<close> is 5 and not 0, and
  the record is kept.
\<close>

theorem filter_falsy_value_counterexample:
  "map_of [(''field'', JStr ''bodySize''), (''value'', JNum 0)] ''field'' = Some (JStr ''bodySize'')
   \<and> map_of [(''field'', JStr ''bodySize''), (''value'', JNum 0)] ''value'' = Some (JNum 0)
   \<and> getProp [(''bodySize'', JNum 5)] ''bodySize'' \<noteq> JNum 0
   \<and> filterTransformation exampleRuntime [[(''bodySize'', JNum 5)]]
        [(''field'', JStr ''bodySize''), (''value'', JNum 0)] = [[(''bodySize'', JNum 5)]]"
  by (simp add: filterTransformation_def getProp_def objectPrototypeNames_def)

text \<open>
  Claim C7, amended. When \<^verbatim>\<open>config.field\<close> and \<^verbatim>\<open>config.value\<close> are both
  truthy, a record is kept iff its property named by \<^verbatim>\<open>config.field\<close> is strictly
  equal to \<^verbatim>\<open>config.value\<close>; when either is absent or falsy, every record is kept.
\<close>

theorem filterTransformation_truthy:
  "(truthy (getProp cfg ''field'') \<and> truthy (getProp cfg ''value'') \<longrightarrow>
      filterTransformation js data cfg =
        filter (\<lambda>item. getProp item (toPropertyKey js (getProp cfg ''field''))
                         = getProp cfg ''value'') data)
   \<and> (\<not> (truthy (getProp cfg ''field'') \<and> truthy (getProp cfg ''value'')) \<longrightarrow>
      filterTransformation js data cfg = data)"
proof (cases "truthy (getProp cfg ''field'') \<and> truthy (getProp cfg ''value'')")
  case True
  then show ?thesis by (simp add: filterTransformation_def)
next
  case False
  then have "filterTransformation js data cfg = filter (\<lambda>item. True) data"
    unfolding filterTransformation_def by (simp only: if_False)
  then have "filterTransformation js data cfg = data" by simp
  with False show ?thesis by blast
qed

theorem filterTransformation_truthy_witness:
  "truthy (getProp [(''field'', JStr ''method''), (''value'', JStr ''POST'')] ''field'')
   \<and> truthy (getProp [(''field'', JStr ''method''), (''value'', JStr ''POST'')] ''value'')
   \<and> filterTransformation exampleRuntime
        [[(''method'', JStr ''GET'')], [(''method'', JStr ''POST'')]]
        [(''field'', JStr ''method''), (''value'', JStr ''POST'')]
       = [[(''method'', JStr ''POST'')]]
   \<and> \<not> truthy (getProp [(''field'', JStr ''method'')] ''value'')
   \<and> filterTransformation exampleRuntime
        [[(''method'', JStr ''GET'')], [(''method'', JStr ''POST'')]]
        [(''field'', JStr ''method'')]
       = [[(''method'', JStr ''GET'')], [(''method'', JStr ''POST'')]]"
  using filterTransformation_truthy [of "[(''field'', JStr ''method''), (''value'', JStr ''POST'')]"
          exampleRuntime "[[(''method'', JStr ''GET'')], [(''method'', JStr ''POST'')]]"]
        filterTransformation_truthy [of "[(''field'', JStr ''method'')]"
          exampleRuntime "[[(''method'', JStr ''GET'')], [(''method'', JStr ''POST'')]]"]
  by (simp add: getProp_def objectPrototypeNames_def exampleRuntime_def)

subsection \<open>The transformation pipeline\<close>



























text \<open>
  A record that has no property \<open>g\<close> of its own is grouped under what it inherits
  under that name, if it inherits anything: grouping by \<^verbatim>\<open>constructor\<close> puts the
  records that have no such property under the built-in function.
\<close>

lemma aggregate_inherited_key:
  "aggregateTransformation exampleRuntime
      [[(''method'', JStr ''GET'')], [(''method'', JStr ''POST'')]]
      [(''groupBy'', JStr ''constructor'')]
    = [[(''constructor'', JNative ''constructor''), (''count'', JNum 2),
        (''items'', JUndefined)]]"
  by (simp add: aggregateTransformation_def groupItems_def getProp_def objectPrototypeNames_def
        objectLiteral_def exampleRuntime_def)

subsection \<open>The job lifecycle manager\<close>

lemma heap_updateJob:
  "heap (updateJob j f e) r = (if r = j then f (heap e j) else heap e r)"
  by (simp add: updateJob_def)

lemma jobs_updateJob: "jobs (updateJob j f e) = jobs e"
  by (simp add: updateJob_def)

lemma activeJobs_updateJob: "activeJobs (updateJob j f e) = activeJobs e"
  by (simp add: updateJob_def)

lemma updateJob_updateJob:
  "updateJob j g (updateJob j f e) = updateJob j (\<lambda>jb. g (f jb)) e"
  by (simp add: updateJob_def)

lemmas updateJob_simps = heap_updateJob jobs_updateJob activeJobs_updateJob updateJob_updateJob

lemma afterExtract_eq:
  "afterExtract js xs j e =
     (case progress (heap e j) of
        None \<Rightarrow> Inl (Error (cannotSetMessage js ''totalRecords''))
      | Some p \<Rightarrow>
          Inr (updateJob j (\<lambda>jb. jb\<lparr>progress :=
                 Some (p\<lparr>totalRecords := length xs, currentPhase := ''transform''\<rparr>)\<rparr>) e))"
  by (simp add: updateJob_simps afterExtract_def setProgress_def split: option.splits)

lemma afterTransform_eq:
  "afterTransform js ys j e =
     (case progress (heap e j) of
        None \<Rightarrow> Inl (Error (cannotSetMessage js ''processedRecords''))
      | Some p \<Rightarrow>
          Inr (updateJob j (\<lambda>jb. jb\<lparr>progress :=
                 Some (p\<lparr>processedRecords := length ys, currentPhase := ''load''\<rparr>)\<rparr>) e))"
  by (simp add: updateJob_simps afterTransform_def setProgress_def split: option.splits)

lemma afterLoad_eq:
  "afterLoad js ys now j e =
     (case progress (heap e j) of
        None \<Rightarrow> Inl (Error (cannotSetMessage js ''successfulRecords''))
      | Some p \<Rightarrow>
          Inr (updateJob j (\<lambda>jb. jb\<lparr>status := Completed, completedAt := Some now,
                 progress := Some (p\<lparr>successfulRecords := length ys, percentage := 100,
                                      currentPhase := ''completed''\<rparr>)\<rparr>) e))"
  by (simp add: afterLoad_def setProgress_def updateJob_def split: option.splits)

lemma beginRun_eq:
  "beginRun now jobId j e =
     (updateJob j (\<lambda>jb. jb\<lparr>status := Running, startedAt := Some now,
         progress := Some \<lparr>totalRecords = 0, processedRecords = 0, successfulRecords = 0,
           failedRecords = 0, percentage = 0, currentPhase = ''extract''\<rparr>\<rparr>) e)
       \<lparr>jobs := (jobs e)(jobId \<mapsto> j)\<rparr>"
  by (simp add: beginRun_def updateJob_def Let_def)

lemma afterExtract_advanced:
  "afterExtract js xs j r = Inr s \<Longrightarrow> advanced j ''transform'' r s"
  by (auto simp: afterExtract_eq advanced_def split: option.splits)

lemma afterTransform_advanced:
  "afterTransform js ys j r = Inr s \<Longrightarrow> advanced j ''load'' r s"
  by (auto simp: afterTransform_eq advanced_def split: option.splits)

lemma afterLoad_finished:
  "afterLoad js ys now j r = Inr s \<Longrightarrow> finished j now r s"
  by (auto simp: afterLoad_eq finished_def split: option.splits)

lemma resumeAfterLoad_cases:
  assumes "resumeAfterLoad js t1 j ys seen r3 = (res, e1, tr)"
  obtains (failed) err where "res = Some err" "e1 = r3" "tr = seen"
        | (resolved) "res = None" "finished j t1 r3 e1" "tr = seen"
proof (cases "afterLoad js ys t1 j r3")
  case (Inl err)
  with assms have "res = Some err" "e1 = r3" "tr = seen"
    by (auto simp: resumeAfterLoad_def)
  then show thesis by (rule failed)
next
  case (Inr s4)
  with assms have "res = None" "e1 = s4" "tr = seen"
    by (auto simp: resumeAfterLoad_def)
  with afterLoad_finished [OF Inr] show thesis by (simp add: resolved)
qed

lemma resumeAfterTransform_cases:
  assumes "resumeAfterTransform js w susp t1 j ys seen r2 = (res, e1, tr)"
  obtains (failed) err where "res = Some err" "e1 = r2" "tr = seen"
        | (inLoad) err s3 where "res = Some err" "advanced j ''load'' r2 s3"
            "e1 = duringLoad susp s3" "tr = seen @ [(s3, duringLoad susp s3)]"
        | (resolved) s3 where "res = None" "advanced j ''load'' r2 s3"
            "finished j t1 (duringLoad susp s3) e1" "tr = seen @ [(s3, duringLoad susp s3)]"
proof (cases "afterTransform js ys j r2")
  case (Inl err)
  with assms have "res = Some err" "e1 = r2" "tr = seen"
    by (auto simp: resumeAfterTransform_def)
  then show thesis by (rule failed)
next
  case (Inr s3)
  note adv = afterTransform_advanced [OF Inr]
  show thesis
  proof (cases "snd (load w ys (destination (heap s3 j)))")
    case (Some err)
    with assms Inr have "res = Some err" "e1 = duringLoad susp s3"
        "tr = seen @ [(s3, duringLoad susp s3)]"
      by (auto simp: resumeAfterTransform_def Let_def)
    with adv show thesis by (simp add: inLoad)
  next
    case None
    with assms Inr have r: "resumeAfterLoad js t1 j ys (seen @ [(s3, duringLoad susp s3)])
        (duringLoad susp s3) = (res, e1, tr)"
      by (simp add: resumeAfterTransform_def Let_def)
    from r show thesis
    proof (cases rule: resumeAfterLoad_cases)
      case (failed err)
      with adv show thesis by (simp add: inLoad)
    next
      case resolved
      with adv show thesis by (simp add: that(3))
    qed
  qed
qed

lemma resumeAfterExtract_cases:
  assumes "resumeAfterExtract js ops w susp t1 j xs seen r1 = (res, e1, tr)"
  obtains (failed) err where "res = Some err" "e1 = r1" "tr = seen"
        | (inTransform) err s2 where "res = Some err" "advanced j ''transform'' r1 s2"
            "e1 = duringTransform susp s2" "tr = seen @ [(s2, duringTransform susp s2)]"
        | (inLoad) err s2 s3 where "res = Some err" "advanced j ''transform'' r1 s2"
            "advanced j ''load'' (duringTransform susp s2) s3"
            "e1 = duringLoad susp s3"
            "tr = seen @ [(s2, duringTransform susp s2), (s3, duringLoad susp s3)]"
        | (resolved) s2 s3 where "res = None" "advanced j ''transform'' r1 s2"
            "advanced j ''load'' (duringTransform susp s2) s3"
            "finished j t1 (duringLoad susp s3) e1"
            "tr = seen @ [(s2, duringTransform susp s2), (s3, duringLoad susp s3)]"
proof (cases "afterExtract js xs j r1")
  case (Inl err)
  with assms have "res = Some err" "e1 = r1" "tr = seen"
    by (auto simp: resumeAfterExtract_def)
  then show thesis by (rule failed)
next
  case (Inr s2)
  note adv = afterExtract_advanced [OF Inr]
  show thesis
  proof (cases "transform js ops (map (asObject w) xs) (transformations (heap s2 j))")
    case (Inl err)
    with assms Inr have "res = Some err" "e1 = duringTransform susp s2"
        "tr = seen @ [(s2, duringTransform susp s2)]"
      by (auto simp: resumeAfterExtract_def Let_def)
    with adv show thesis by (simp add: inTransform)
  next
    case tr: (Inr ys)
    with assms Inr have r: "resumeAfterTransform js w susp t1 j ys
        (seen @ [(s2, duringTransform susp s2)]) (duringTransform susp s2) = (res, e1, tr)"
      by (simp add: resumeAfterExtract_def Let_def)
    from r show thesis
    proof (cases rule: resumeAfterTransform_cases)
      case (failed err)
      with adv show thesis by (simp add: inTransform)
    next
      case (inLoad err s3)
      with adv show thesis by (simp add: that(3))
    next
      case (resolved s3)
      with adv show thesis by (simp add: that(4))
    qed
  qed
qed

lemma tryBlock_cases:
  assumes "tryBlock js ops w susp t0 t1 jobId j e = (res, e1, tr)"
  obtains (inExtract) err where "res = Some err"
            "e1 = duringExtract susp (beginRun t0 jobId j e)"
            "tr = [(beginRun t0 jobId j e, duringExtract susp (beginRun t0 jobId j e))]"
        | (inTransform) err s2 where "res = Some err"
            "advanced j ''transform'' (duringExtract susp (beginRun t0 jobId j e)) s2"
            "e1 = duringTransform susp s2"
            "tr = [(beginRun t0 jobId j e, duringExtract susp (beginRun t0 jobId j e)),
                   (s2, duringTransform susp s2)]"
        | (inLoad) err s2 s3 where "res = Some err"
            "advanced j ''transform'' (duringExtract susp (beginRun t0 jobId j e)) s2"
            "advanced j ''load'' (duringTransform susp s2) s3"
            "e1 = duringLoad susp s3"
            "tr = [(beginRun t0 jobId j e, duringExtract susp (beginRun t0 jobId j e)),
                   (s2, duringTransform susp s2), (s3, duringLoad susp s3)]"
        | (resolved) s2 s3 where "res = None"
            "advanced j ''transform'' (duringExtract susp (beginRun t0 jobId j e)) s2"
            "advanced j ''load'' (duringTransform susp s2) s3"
            "finished j t1 (duringLoad susp s3) e1"
            "tr = [(beginRun t0 jobId j e, duringExtract susp (beginRun t0 jobId j e)),
                   (s2, duringTransform susp s2), (s3, duringLoad susp s3)]"
proof (cases "extract' js w (filters (heap (beginRun t0 jobId j e) j))")
  case (Inl err)
  with assms have "res = Some err" "e1 = duringExtract susp (beginRun t0 jobId j e)"
      "tr = [(beginRun t0 jobId j e, duringExtract susp (beginRun t0 jobId j e))]"
    by (auto simp: tryBlock_def Let_def)
  then show thesis by (rule inExtract)
next
  case (Inr xs)
  with assms have r: "resumeAfterExtract js ops w susp t1 j xs
      [(beginRun t0 jobId j e, duringExtract susp (beginRun t0 jobId j e))]
      (duringExtract susp (beginRun t0 jobId j e)) = (res, e1, tr)"
    by (simp add: tryBlock_def Let_def)
  from r show thesis
  proof (cases rule: resumeAfterExtract_cases)
    case (failed err)
    then show thesis by (simp add: inExtract)
  next
    case (inTransform err s2)
    then show thesis by (simp add: that(2))
  next
    case (inLoad err s2 s3)
    then show thesis by (simp add: that(3))
  next
    case (resolved s2 s3)
    then show thesis by (simp add: that(4))
  qed
qed

lemma touchesOnly_refl: "touchesOnly j i e e"
  by (simp add: touchesOnly_def)

lemma touchesOnly_trans:
  "touchesOnly j i e e' \<Longrightarrow> touchesOnly j i e' e'' \<Longrightarrow> touchesOnly j i e e''"
  by (simp add: touchesOnly_def)

lemma touchesOnly_updateJob: "touchesOnly j i e (updateJob j f e)"
  by (simp add: updateJob_simps touchesOnly_def)

lemma touchesOnly_beginRun:
  "touchesOnly j i e (beginRun t0 i j (e\<lparr>activeJobs := insert i (activeJobs e)\<rparr>))"
  by (simp add: updateJob_simps touchesOnly_def beginRun_eq)

lemma touchesOnly_advanced: "advanced j ph r s \<Longrightarrow> touchesOnly j i r s"
  by (auto simp: updateJob_simps advanced_def touchesOnly_def)

lemma touchesOnly_handlers:
  "touchesOnly j i e (finallyBlock i j (catchBlock err t1 j e))"
  by (simp add: updateJob_simps touchesOnly_def finallyBlock_def catchBlock_def)

lemma undisturbed_simps:
  "duringExtract undisturbed e = e"
  "duringTransform undisturbed e = e"
  "duringLoad undisturbed e = e"
  by (simp_all add: undisturbed_def)

lemma tryBlock_undisturbed_result:
  "fst (tryBlock js ops w undisturbed t0 t1 jobId j e) = phaseFailure js ops w (heap e j)"
  by (simp add: updateJob_simps undisturbed_simps tryBlock_def resumeAfterExtract_def resumeAfterTransform_def
        resumeAfterLoad_def phaseFailure_def Let_def beginRun_eq
        afterExtract_eq afterTransform_eq afterLoad_eq
      split: sum.splits option.splits)

lemma tryBlock_undisturbed_touches:
  assumes "tryBlock js ops w undisturbed t0 t1 i j (e\<lparr>activeJobs := insert i (activeJobs e)\<rparr>)
             = (Some err, e1, tr)"
  shows "touchesOnly j i e e1"
  using assms
proof (cases rule: tryBlock_cases)
  case (inExtract err)
  then show ?thesis by (simp add: undisturbed_simps touchesOnly_beginRun)
next
  case (inTransform err s2)
  then show ?thesis
    using touchesOnly_trans [OF touchesOnly_beginRun touchesOnly_advanced] by (simp add: undisturbed_simps)
next
  case (inLoad err s2 s3)
  then show ?thesis
    using touchesOnly_trans [OF touchesOnly_trans [OF touchesOnly_beginRun touchesOnly_advanced]
            touchesOnly_advanced]
    by (simp add: undisturbed_simps)
next
  case (resolved s2 s3)
  then show ?thesis by simp
qed

text \<open>
  Claim C2. A run during whose suspensions nothing else runs, and in which a phase
  fails with \<open>err\<close>: the call rejects with \<open>err\<close> itself; at the end the job has
  the status failed, its \<open>error\<close> is the message of \<open>err\<close> (\<^verbatim>\<open>Unknown error\<close> when
  \<open>err\<close> is not an \<^verbatim>\<open>Error\<close>), its \<open>completedAt\<close> is the reading of the clock, and
  its id is not active; and the engine differs from the engine before the call at most
  in the record of this job, the entry of its id and whether its id is active.
\<close>

theorem executeJob_phase_failure:
  "jobId = id' (heap e j) \<and> jobId \<notin> activeJobs e
   \<and> phaseFailure js ops w (heap e j) = Some err
   \<and> r = executeJob js ops w undisturbed t0 t1 j e \<longrightarrow>
     rejected r = Some err
     \<and> status (heap (final r) j) = Failed
     \<and> error (heap (final r) j) = Some (errorMessage err)
     \<and> completedAt (heap (final r) j) = Some t1
     \<and> jobId \<notin> activeJobs (final r)
     \<and> touchesOnly j jobId e (final r)"
proof (intro impI, elim conjE)
  assume i: "jobId = id' (heap e j)" and n: "jobId \<notin> activeJobs e"
    and f: "phaseFailure js ops w (heap e j) = Some err"
    and r: "r = executeJob js ops w undisturbed t0 t1 j e"
  let ?e0 = "e\<lparr>activeJobs := insert jobId (activeJobs e)\<rparr>"
  obtain res e1 tr where t: "tryBlock js ops w undisturbed t0 t1 jobId j ?e0 = (res, e1, tr)"
    by (cases "tryBlock js ops w undisturbed t0 t1 jobId j ?e0") blast
  from tryBlock_undisturbed_result [of js ops w t0 t1 jobId j ?e0] t f
  have res: "res = Some err" by simp
  from r i n t res have fin: "final r = finallyBlock jobId j (catchBlock err t1 j e1)"
    and rej: "rejected r = Some err"
    by (simp_all add: executeJob_def Let_def)
  from t res have "touchesOnly j jobId e e1"
    by (simp add: tryBlock_undisturbed_touches)
  from touchesOnly_trans [OF this touchesOnly_handlers]
  have frame: "touchesOnly j jobId e (final r)" by (simp add: fin)
  from fin rej frame show "rejected r = Some err
     \<and> status (heap (final r) j) = Failed
     \<and> error (heap (final r) j) = Some (errorMessage err)
     \<and> completedAt (heap (final r) j) = Some t1
     \<and> jobId \<notin> activeJobs (final r)
     \<and> touchesOnly j jobId e (final r)"
    by (simp add: updateJob_simps finallyBlock_def catchBlock_def)
qed

theorem executeJob_phase_failure_witness:
  "rejected (executeJob exampleRuntime exampleSteps exampleWorld undisturbed
      ''2024-01-01T00:00:00.000Z'' ''2024-01-01T00:00:05.000Z'' 0
      (exampleEngine (Some exampleDatabase)))
     = Some (Error ''Unsupported destination type: database'')
   \<and> status (heap (final (executeJob exampleRuntime exampleSteps exampleWorld undisturbed
      ''2024-01-01T00:00:00.000Z'' ''2024-01-01T00:00:05.000Z'' 0
      (exampleEngine (Some exampleDatabase)))) 0) = Failed
   \<and> error (heap (final (executeJob exampleRuntime exampleSteps exampleWorld undisturbed
      ''2024-01-01T00:00:00.000Z'' ''2024-01-01T00:00:05.000Z'' 0
      (exampleEngine (Some exampleDatabase)))) 0)
     = Some ''Unsupported destination type: database''
   \<and> completedAt (heap (final (executeJob exampleRuntime exampleSteps exampleWorld undisturbed
      ''2024-01-01T00:00:00.000Z'' ''2024-01-01T00:00:05.000Z'' 0
      (exampleEngine (Some exampleDatabase)))) 0) = Some ''2024-01-01T00:00:05.000Z''
   \<and> ''job-1'' \<notin> activeJobs (final (executeJob exampleRuntime exampleSteps exampleWorld
      undisturbed ''2024-01-01T00:00:00.000Z'' ''2024-01-01T00:00:05.000Z'' 0
      (exampleEngine (Some exampleDatabase))))"
proof -
  let ?e = "exampleEngine (Some exampleDatabase)"
  have i: "''job-1'' = id' (heap ?e 0)" and n: "''job-1'' \<notin> activeJobs ?e"
    by (simp_all add: exampleEngine_def exampleJob_def)
  have f: "phaseFailure exampleRuntime exampleSteps exampleWorld (heap ?e 0)
      = Some (Error ''Unsupported destination type: database'')"
    by (simp add: phaseFailure_def extract'_def scopedWebhook_def applyFilters_def
          transform_def load_def exampleWorld_def exampleEngine_def exampleJob_def
          exampleDatabase_def)
  from i n f executeJob_phase_failure [where jobId = "''job-1''" and e = ?e and j = 0
      and js = exampleRuntime and ops = exampleSteps and w = exampleWorld
      and err = "Error ''Unsupported destination type: database''"
      and ?t0.0 = "''2024-01-01T00:00:00.000Z''" and ?t1.0 = "''2024-01-01T00:00:05.000Z''"]
  show ?thesis by (simp add: errorMessage_def)
qed

lemma cancelJob_registered:
  "registered j jobId e \<Longrightarrow>
     cancelJob now jobId e =
       (True, (updateJob j (\<lambda>jb. jb\<lparr>status := Cancelled, completedAt := Some now\<rparr>) e)
                \<lparr>activeJobs := activeJobs e - {jobId}\<rparr>)"
  by (simp add: updateJob_simps cancelJob_def registered_def map_upd_triv)

lemma heap_cancelling:
  "heap (cancelling now jobId e) j = heap e j \<or>
   heap (cancelling now jobId e) j = (heap e j)\<lparr>status := Cancelled, completedAt := Some now\<rparr>"
  by (simp add: updateJob_simps cancelling_def cancelJob_def split: option.splits)

lemma leavesJob_nothing: "leavesJob j (\<lambda>e. e)"
  by (simp add: leavesJob_def)

lemma leavesJob_cancelling: "leavesJob j (cancelling now jobId)"
  using heap_cancelling [of now jobId _ j] by (auto simp: leavesJob_def)

lemma leaveJob_cancelDuring: "leaveJob j (cancelDuring p now jobId)"
  by (simp add: leaveJob_def cancelDuring_def leavesJob_nothing leavesJob_cancelling)

lemma leaveJob_undisturbed: "leaveJob j undisturbed"
  by (simp add: leaveJob_def undisturbed_def leavesJob_nothing)

lemma midRun_leavesJob: "leavesJob j h \<Longrightarrow> midRun (heap e j) \<Longrightarrow> midRun (heap (h e) j)"
proof -
  assume l: "leavesJob j h" and m: "midRun (heap e j)"
  from l have "heap (h e) j = heap e j \<or>
      (\<exists>now. heap (h e) j = (heap e j)\<lparr>status := Cancelled, completedAt := Some now\<rparr>)"
    by (simp add: leavesJob_def)
  with m show "midRun (heap (h e) j)" by (auto simp: midRun_def)
qed

lemma midRun_hooks:
  "leaveJob j susp \<Longrightarrow> midRun (heap e j) \<Longrightarrow> midRun (heap (duringExtract susp e) j)"
  "leaveJob j susp \<Longrightarrow> midRun (heap e j) \<Longrightarrow> midRun (heap (duringTransform susp e) j)"
  "leaveJob j susp \<Longrightarrow> midRun (heap e j) \<Longrightarrow> midRun (heap (duringLoad susp e) j)"
  by (simp_all add: leaveJob_def midRun_leavesJob)

lemma midRun_beginRun: "midRun (heap (beginRun t0 jobId j e) j)"
  by (simp add: updateJob_simps beginRun_eq midRun_def)

lemma midRun_advanced:
  "advanced j ph r s \<Longrightarrow> ph \<in> {''extract'', ''transform'', ''load''} \<Longrightarrow>
     midRun (heap r j) \<Longrightarrow> midRun (heap s j)"
  by (auto simp: updateJob_simps advanced_def midRun_def)

lemma midRun_consistent: "midRun jb \<Longrightarrow> consistent jb \<and> percentageOf jb = 0"
  by (auto simp: midRun_def consistent_def percentageOf_def)

lemma finished_consistent:
  "finished j t1 r s \<Longrightarrow>
     consistent (heap (finallyBlock jobId j s) j) \<and>
     percentageOf (heap (finallyBlock jobId j s) j) = 100 \<and>
     status (heap (finallyBlock jobId j s) j) = Completed \<and>
     completedAt (heap (finallyBlock jobId j s) j) = Some t1"
  by (auto simp: updateJob_simps finished_def consistent_def percentageOf_def finallyBlock_def)

lemma failed_consistent:
  "midRun (heap e1 j) \<Longrightarrow>
     consistent (heap (finallyBlock jobId j (catchBlock err t1 j e1)) j) \<and>
     percentageOf (heap (finallyBlock jobId j (catchBlock err t1 j e1)) j) = 0"
  by (auto simp: updateJob_simps midRun_def consistent_def percentageOf_def finallyBlock_def catchBlock_def)

lemma terminal_write:
  "status (heap (finallyBlock jobId j (catchBlock err t1 j e1)) j) = Failed \<and>
   completedAt (heap (finallyBlock jobId j (catchBlock err t1 j e1)) j) = Some t1"
  by (simp add: updateJob_simps finallyBlock_def catchBlock_def)

lemma observable_midRun:
  "list_all (\<lambda>(s, s'). midRun (heap s j) \<and> midRun (heap s' j)) tr \<Longrightarrow>
     consistent (heap fin j) \<Longrightarrow>
     list_all (\<lambda>s. consistent (heap s j)) (concat (map (\<lambda>(s, s'). [s, s']) tr) @ [fin])
     \<and> sorted (map (\<lambda>s. percentageOf (heap s j)) (concat (map (\<lambda>(s, s'). [s, s']) tr) @ [fin]))"
  by (induction tr) (auto simp: midRun_consistent)

lemma tryBlock_midRun:
  assumes l: "leaveJob j susp"
    and "tryBlock js ops w susp t0 t1 jobId j e = (res, e1, tr)"
  shows "list_all (\<lambda>(s, s'). midRun (heap s j) \<and> midRun (heap s' j)) tr
         \<and> (case res of
               None \<Rightarrow> (\<exists>r3. finished j t1 r3 e1)
             | Some err \<Rightarrow> midRun (heap e1 j))"
  using assms(2)
proof (cases rule: tryBlock_cases)
  case (inExtract err)
  then show ?thesis by (simp add: midRun_beginRun midRun_hooks [OF l])
next
  case (inTransform err s2)
  have "midRun (heap s2 j)"
    by (rule midRun_advanced [OF inTransform(2)]) (simp_all add: midRun_beginRun midRun_hooks [OF l])
  with inTransform show ?thesis by (simp add: midRun_beginRun midRun_hooks [OF l])
next
  case (inLoad err s2 s3)
  have 2: "midRun (heap s2 j)"
    by (rule midRun_advanced [OF inLoad(2)]) (simp_all add: midRun_beginRun midRun_hooks [OF l])
  have 3: "midRun (heap s3 j)"
    by (rule midRun_advanced [OF inLoad(3)]) (simp_all add: 2 midRun_hooks [OF l])
  with 2 inLoad show ?thesis by (simp add: midRun_beginRun midRun_hooks [OF l])
next
  case (resolved s2 s3)
  have 2: "midRun (heap s2 j)"
    by (rule midRun_advanced [OF resolved(2)]) (simp_all add: midRun_beginRun midRun_hooks [OF l])
  have 3: "midRun (heap s3 j)"
    by (rule midRun_advanced [OF resolved(3)]) (simp_all add: 2 midRun_hooks [OF l])
  from resolved(4) have "\<exists>r3. finished j t1 r3 e1" by blast
  with 2 3 resolved show ?thesis by (simp add: midRun_beginRun midRun_hooks [OF l])
qed

text \<open>
  Claim C8. The guard of \<open>executeJob\<close> lets one execution of a job in at a time, but
  \<open>cancelJob\<close> removes the id of a job whose run goes on. So let \<open>cancelJob\<close> be
  called while a run is suspended in extract, and let the job be executed again and
  this second run end before the first resumes: the call returns true, the guard lets
  the second run in, and the second run resolves. The first run then goes on with the
  record that the second has completed: it sets the phase to transform and to load on
  a job whose status is completed and whose percentage is 100. In these engines, which
  the rest of the program can see, status and phase do not agree.
\<close>

theorem overlapping_run_inconsistent:
  "cancelJob ''2024-01-01T00:00:01.000Z'' ''job-1'' (fst (suspended exampleOverlap ! 0))
     = (True, cancelling ''2024-01-01T00:00:01.000Z'' ''job-1'' (fst (suspended exampleOverlap ! 0)))
   \<and> rejected (executeJob exampleRuntime exampleSteps exampleWorld undisturbed
        ''2024-01-01T00:00:02.000Z'' ''2024-01-01T00:00:03.000Z'' 0
        (cancelling ''2024-01-01T00:00:01.000Z'' ''job-1'' (fst (suspended exampleOverlap ! 0))))
       = None
   \<and> rejected exampleOverlap = None
   \<and> map (\<lambda>s. (status (heap s 0), map_option currentPhase (progress (heap s 0)),
                map_option percentage (progress (heap s 0))))
        (observable exampleOverlap)
      = [(Running, Some ''extract'', Some 0),
         (Completed, Some ''completed'', Some 100),
         (Completed, Some ''transform'', Some 100),
         (Completed, Some ''transform'', Some 100),
         (Completed, Some ''load'', Some 100),
         (Completed, Some ''load'', Some 100),
         (Completed, Some ''completed'', Some 100)]"
proof -
  note defs = exampleOverlap_def rerunDuringExtract_def observable_def
    executeJob_def tryBlock_def resumeAfterExtract_def resumeAfterTransform_def
    resumeAfterLoad_def Let_def beginRun_eq afterExtract_eq afterTransform_eq
    afterLoad_eq cancelling_def cancelJob_def finallyBlock_def catchBlock_def
    extract'_def scopedWebhook_def applyFilters_def transform_def load_def
    exampleWorld_def exampleEngine_def exampleJob_def undisturbed_simps updateJob_simps
  have a: "cancelJob ''2024-01-01T00:00:01.000Z'' ''job-1'' (fst (suspended exampleOverlap ! 0))
     = (True, cancelling ''2024-01-01T00:00:01.000Z'' ''job-1'' (fst (suspended exampleOverlap ! 0)))"
    by (simp add: defs)
  have b: "rejected (executeJob exampleRuntime exampleSteps exampleWorld undisturbed
        ''2024-01-01T00:00:02.000Z'' ''2024-01-01T00:00:03.000Z'' 0
        (cancelling ''2024-01-01T00:00:01.000Z'' ''job-1'' (fst (suspended exampleOverlap ! 0))))
       = None"
    by (simp add: defs)
  have c: "rejected exampleOverlap = None"
    by (simp add: defs)
  have d: "map (\<lambda>s. (status (heap s 0), map_option currentPhase (progress (heap s 0)),
                map_option percentage (progress (heap s 0))))
        (observable exampleOverlap)
      = [(Running, Some ''extract'', Some 0),
         (Completed, Some ''completed'', Some 100),
         (Completed, Some ''transform'', Some 100),
         (Completed, Some ''transform'', Some 100),
         (Completed, Some ''load'', Some 100),
         (Completed, Some ''load'', Some 100),
         (Completed, Some ''completed'', Some 100)]"
    by (simp add: defs)
  from a b c d show ?thesis by blast
qed

text \<open>
  What the claim says holds of every run during which the job is not executed again.
  Take a run during whose suspensions the rest of the program leaves the record of the
  job as it is or cancels the job; doing nothing and calling \<open>cancelJob\<close> during one
  of the phases are of this kind. In every engine that can be seen during the run and
  at its end, the job's status and phase agree: a running job is in one of the phases
  extract, transform and load, and so is a cancelled or failed one, and the job is
  completed exactly when its phase is. Along these engines the percentage never
  decreases. The run of the example above is not of this kind.
\<close>

lemma status_phase_consistent:
  "leaveJob j undisturbed
   \<and> leaveJob j (cancelDuring p tc i)
   \<and> (jobId = id' (heap e j) \<and> jobId \<notin> activeJobs e \<and> leaveJob j susp
       \<and> r = executeJob js ops w susp t0 t1 j e \<longrightarrow>
         list_all (\<lambda>s. consistent (heap s j)) (observable r)
         \<and> sorted (map (\<lambda>s. percentageOf (heap s j)) (observable r)))"
proof -
  have "list_all (\<lambda>s. consistent (heap s j)) (observable r)
     \<and> sorted (map (\<lambda>s. percentageOf (heap s j)) (observable r))"
    if i: "jobId = id' (heap e j)" and n: "jobId \<notin> activeJobs e"
    and l: "leaveJob j susp"
    and r: "r = executeJob js ops w susp t0 t1 j e"
  proof -
  let ?e0 = "e\<lparr>activeJobs := insert jobId (activeJobs e)\<rparr>"
  obtain res e1 tr where t: "tryBlock js ops w susp t0 t1 jobId j ?e0 = (res, e1, tr)"
    by (cases "tryBlock js ops w susp t0 t1 jobId j ?e0") blast
  from tryBlock_midRun [OF l t]
  have m: "list_all (\<lambda>(s, s'). midRun (heap s j) \<and> midRun (heap s' j)) tr"
    and f: "case res of None \<Rightarrow> (\<exists>r3. finished j t1 r3 e1) | Some err \<Rightarrow> midRun (heap e1 j)"
    by simp_all
  from r i n t have o: "observable r = concat (map (\<lambda>(s, s'). [s, s']) tr) @ [final r]"
    by (simp add: executeJob_def observable_def Let_def split: option.splits)
  have "consistent (heap (final r) j)"
  proof (cases res)
    case None
    with f obtain r3 where "finished j t1 r3 e1" by auto
    from finished_consistent [OF this, of jobId] r i n t None show ?thesis
      by (simp add: executeJob_def Let_def)
  next
    case (Some err)
    with f have "midRun (heap e1 j)" by simp
    from failed_consistent [OF this, of jobId err t1] r i n t Some show ?thesis
      by (simp add: executeJob_def Let_def)
  qed
  from observable_midRun [OF m this] o
  show "list_all (\<lambda>s. consistent (heap s j)) (observable r)
     \<and> sorted (map (\<lambda>s. percentageOf (heap s j)) (observable r))"
    by simp
  qed
  with leaveJob_undisturbed [of j] leaveJob_cancelDuring [of j p tc i] show ?thesis
    by blast
qed

lemma overlapping_run_disturbs:
  "\<not> leaveJob 0 (rerunDuringExtract exampleRuntime exampleSteps exampleWorld
          ''2024-01-01T00:00:01.000Z'' ''2024-01-01T00:00:02.000Z''
          ''2024-01-01T00:00:03.000Z'' ''job-1'' 0)
   \<and> \<not> list_all (\<lambda>s. consistent (heap s 0)) (observable exampleOverlap)"
proof -
  note defs = exampleOverlap_def rerunDuringExtract_def observable_def
    executeJob_def tryBlock_def resumeAfterExtract_def resumeAfterTransform_def
    resumeAfterLoad_def Let_def beginRun_eq afterExtract_eq afterTransform_eq
    afterLoad_eq cancelling_def cancelJob_def finallyBlock_def catchBlock_def
    extract'_def scopedWebhook_def applyFilters_def transform_def load_def
    exampleWorld_def exampleEngine_def exampleJob_def undisturbed_simps updateJob_simps
  have n: "\<not> list_all (\<lambda>s. consistent (heap s 0)) (observable exampleOverlap)"
    by (simp add: defs consistent_def)
  have "''job-1'' = id' (heap (exampleEngine None) 0) \<and> ''job-1'' \<notin> activeJobs (exampleEngine None)"
    by (simp add: exampleEngine_def exampleJob_def)
  with n status_phase_consistent [where jobId = "''job-1''" and e = "exampleEngine None"
      and j = 0 and r = exampleOverlap and js = exampleRuntime and ops = exampleSteps
      and w = exampleWorld and ?t0.0 = "''2024-01-01T00:00:00.000Z''"
      and ?t1.0 = "''2024-01-01T00:00:05.000Z''"
      and susp = "rerunDuringExtract exampleRuntime exampleSteps exampleWorld
          ''2024-01-01T00:00:01.000Z'' ''2024-01-01T00:00:02.000Z''
          ''2024-01-01T00:00:03.000Z'' ''job-1'' 0"]
  have "\<not> leaveJob 0 (rerunDuringExtract exampleRuntime exampleSteps exampleWorld
          ''2024-01-01T00:00:01.000Z'' ''2024-01-01T00:00:02.000Z''
          ''2024-01-01T00:00:03.000Z'' ''job-1'' 0)"
    unfolding exampleOverlap_def by blast
  with n show ?thesis by blast
qed

lemma registered_beginRun:
  "registered j i (beginRun t0 i j (e\<lparr>activeJobs := insert i (activeJobs e)\<rparr>))"
  by (simp add: updateJob_simps registered_def beginRun_eq)

lemma registered_advanced: "advanced j ph r s \<Longrightarrow> registered j i r \<Longrightarrow> registered j i s"
  by (auto simp: updateJob_simps advanced_def registered_def)

lemma cancelling_registered:
  "registered j i s \<Longrightarrow>
     cancelJob tc i s = (True, cancelling tc i s)
     \<and> status (heap (cancelling tc i s) j) = Cancelled
     \<and> completedAt (heap (cancelling tc i s) j) = Some tc"
  by (simp add: updateJob_simps cancelling_def cancelJob_registered)

lemma fields_cancelling:
  "filters (heap (cancelling now i e) j) = filters (heap e j)"
  "transformations (heap (cancelling now i e) j) = transformations (heap e j)"
  "destination (heap (cancelling now i e) j) = destination (heap e j)"
  "progress (heap (cancelling now i e) j) = progress (heap e j)"
  using heap_cancelling [of now i e j] by auto

lemma fields_cancelDuring:
  "transformations (heap (duringExtract (cancelDuring p now i) e) j) = transformations (heap e j)"
  "destination (heap (duringExtract (cancelDuring p now i) e) j) = destination (heap e j)"
  "progress (heap (duringExtract (cancelDuring p now i) e) j) = progress (heap e j)"
  "transformations (heap (duringTransform (cancelDuring p now i) e) j) = transformations (heap e j)"
  "destination (heap (duringTransform (cancelDuring p now i) e) j) = destination (heap e j)"
  "progress (heap (duringTransform (cancelDuring p now i) e) j) = progress (heap e j)"
  "progress (heap (duringLoad (cancelDuring p now i) e) j) = progress (heap e j)"
  by (simp_all add: cancelDuring_def fields_cancelling)

lemma tryBlock_cancelDuring_result:
  "fst (tryBlock js ops w (cancelDuring p now i) t0 t1 jobId j e) = phaseFailure js ops w (heap e j)"
  by (simp add: tryBlock_def resumeAfterExtract_def resumeAfterTransform_def
        resumeAfterLoad_def phaseFailure_def Let_def
        afterExtract_eq afterTransform_eq afterLoad_eq fields_cancelDuring updateJob_simps
        beginRun_eq
      split: sum.splits option.splits)

text \<open>
  Claim C9. Let \<open>cancelJob\<close> be called while the run is suspended in the phase number
  \<open>p\<close>. Every run reaches the first suspension. If the run reaches the suspension
  \<open>p\<close>, the call returns true and leaves the job cancelled, with the time of the call
  as \<open>completedAt\<close>. The run goes on all the same: at its end the status is completed
  or failed, completed exactly when the call resolves, and \<open>completedAt\<close> is the
  reading of the clock at the end. The cancelled status and its timestamp are gone.
  The run resolves or rejects as it does when nothing is called during it.
\<close>

theorem cancel_overwritten:
  "jobId = id' (heap e j) \<and> jobId \<notin> activeJobs e \<and> p < 3
   \<and> r = executeJob js ops w (cancelDuring p tc jobId) t0 t1 j e \<longrightarrow>
     suspended r \<noteq> []
     \<and> (p < length (suspended r) \<longrightarrow>
          cancelJob tc jobId (fst (suspended r ! p)) = (True, snd (suspended r ! p))
          \<and> status (heap (snd (suspended r ! p)) j) = Cancelled
          \<and> completedAt (heap (snd (suspended r ! p)) j) = Some tc)
     \<and> (status (heap (final r) j) = Completed \<or> status (heap (final r) j) = Failed)
     \<and> (status (heap (final r) j) = Completed \<longleftrightarrow> rejected r = None)
     \<and> completedAt (heap (final r) j) = Some t1
     \<and> rejected r = rejected (executeJob js ops w undisturbed t0 t1 j e)"
proof (intro impI, elim conjE)
  assume i: "jobId = id' (heap e j)" and n: "jobId \<notin> activeJobs e" and p: "p < 3"
    and r: "r = executeJob js ops w (cancelDuring p tc jobId) t0 t1 j e"
  let ?susp = "cancelDuring p tc jobId"
  let ?e0 = "e\<lparr>activeJobs := insert jobId (activeJobs e)\<rparr>"
  let ?s1 = "beginRun t0 jobId j ?e0"
  obtain res e1 tr where t: "tryBlock js ops w ?susp t0 t1 jobId j ?e0 = (res, e1, tr)"
    by (cases "tryBlock js ops w ?susp t0 t1 jobId j ?e0") blast
  from r i n t have sr: "suspended r = tr"
    by (simp add: executeJob_def Let_def split: option.splits)
  have reg1: "registered j jobId ?s1" by (rule registered_beginRun)
  note c = cancelling_registered
  have pairs: "tr \<noteq> [] \<and> (p < length tr \<longrightarrow>
          cancelJob tc jobId (fst (tr ! p)) = (True, snd (tr ! p))
          \<and> status (heap (snd (tr ! p)) j) = Cancelled
          \<and> completedAt (heap (snd (tr ! p)) j) = Some tc)"
    using t
  proof (cases rule: tryBlock_cases)
    case (inExtract err)
    with p c [OF reg1, of tc] show ?thesis by (auto simp: cancelDuring_def)
  next
    case (inTransform err s2)
    show ?thesis
    proof (cases "p = 0")
      case True
      with inTransform c [OF reg1, of tc] show ?thesis by (simp add: cancelDuring_def)
    next
      case False
      with inTransform(2) reg1 have "registered j jobId s2"
        by (auto simp: cancelDuring_def dest: registered_advanced)
      from c [OF this, of tc] False p inTransform show ?thesis
        by (auto simp: cancelDuring_def nth_Cons')
    qed
  next
    case (inLoad err s2 s3)
    show ?thesis
    proof (cases "p = 0")
      case True
      with inLoad c [OF reg1, of tc] show ?thesis by (simp add: cancelDuring_def)
    next
      case False
      with inLoad(2) reg1 have r2: "registered j jobId s2"
        by (auto simp: cancelDuring_def dest: registered_advanced)
      show ?thesis
      proof (cases "p = 1")
        case True
        with inLoad c [OF r2, of tc] show ?thesis by (simp add: cancelDuring_def)
      next
        case q: False
        with False p have p2: "p = 2" by simp
        with inLoad(3) r2 have "registered j jobId s3"
          by (auto simp: cancelDuring_def dest: registered_advanced)
        from c [OF this, of tc] p2 inLoad show ?thesis
          by (simp add: cancelDuring_def)
      qed
    qed
  next
    case (resolved s2 s3)
    show ?thesis
    proof (cases "p = 0")
      case True
      with resolved c [OF reg1, of tc] show ?thesis by (simp add: cancelDuring_def)
    next
      case False
      with resolved(2) reg1 have r2: "registered j jobId s2"
        by (auto simp: cancelDuring_def dest: registered_advanced)
      show ?thesis
      proof (cases "p = 1")
        case True
        with resolved c [OF r2, of tc] show ?thesis by (simp add: cancelDuring_def)
      next
        case q: False
        with False p have p2: "p = 2" by simp
        with resolved(3) r2 have "registered j jobId s3"
          by (auto simp: cancelDuring_def dest: registered_advanced)
        from c [OF this, of tc] p2 resolved show ?thesis
          by (simp add: cancelDuring_def)
      qed
    qed
  qed
  have fin: "(status (heap (final r) j) = Completed \<or> status (heap (final r) j) = Failed)
     \<and> (status (heap (final r) j) = Completed \<longleftrightarrow> rejected r = None)
     \<and> completedAt (heap (final r) j) = Some t1"
  proof (cases res)
    case None
    with t obtain r3 where "finished j t1 r3 e1"
      by (cases rule: tryBlock_cases) auto
    from finished_consistent [OF this, of jobId] r i n t None show ?thesis
      by (simp add: executeJob_def Let_def)
  next
    case (Some err)
    from terminal_write [of jobId j err t1 e1] r i n t Some show ?thesis
      by (simp add: executeJob_def Let_def)
  qed
  have same: "rejected r = rejected (executeJob js ops w undisturbed t0 t1 j e)"
  proof -
    from r i n t have "rejected r = fst (tryBlock js ops w ?susp t0 t1 jobId j ?e0)"
      by (simp add: executeJob_def Let_def split: option.splits)
    moreover from i n
    have "rejected (executeJob js ops w undisturbed t0 t1 j e)
            = fst (tryBlock js ops w undisturbed t0 t1 jobId j ?e0)"
      by (simp add: executeJob_def Let_def split: prod.splits option.splits)
    ultimately show ?thesis
      by (simp only: tryBlock_cancelDuring_result tryBlock_undisturbed_result)
  qed
  from pairs fin same show "suspended r \<noteq> []
     \<and> (p < length (suspended r) \<longrightarrow>
          cancelJob tc jobId (fst (suspended r ! p)) = (True, snd (suspended r ! p))
          \<and> status (heap (snd (suspended r ! p)) j) = Cancelled
          \<and> completedAt (heap (snd (suspended r ! p)) j) = Some tc)
     \<and> (status (heap (final r) j) = Completed \<or> status (heap (final r) j) = Failed)
     \<and> (status (heap (final r) j) = Completed \<longleftrightarrow> rejected r = None)
     \<and> completedAt (heap (final r) j) = Some t1
     \<and> rejected r = rejected (executeJob js ops w undisturbed t0 t1 j e)"
    unfolding sr by blast
qed

theorem cancel_overwritten_witness:
  "cancelJob ''2024-01-01T00:00:03.000Z'' ''job-1''
      (fst (suspended (executeJob exampleRuntime exampleSteps exampleWorld
        (cancelDuring 0 ''2024-01-01T00:00:03.000Z'' ''job-1'')
        ''2024-01-01T00:00:00.000Z'' ''2024-01-01T00:00:05.000Z'' 0 (exampleEngine None)) ! 0))
     = (True, snd (suspended (executeJob exampleRuntime exampleSteps exampleWorld
        (cancelDuring 0 ''2024-01-01T00:00:03.000Z'' ''job-1'')
        ''2024-01-01T00:00:00.000Z'' ''2024-01-01T00:00:05.000Z'' 0 (exampleEngine None)) ! 0))
   \<and> status (heap (snd (suspended (executeJob exampleRuntime exampleSteps exampleWorld
        (cancelDuring 0 ''2024-01-01T00:00:03.000Z'' ''job-1'')
        ''2024-01-01T00:00:00.000Z'' ''2024-01-01T00:00:05.000Z'' 0 (exampleEngine None)) ! 0)) 0)
     = Cancelled
   \<and> status (heap (final (executeJob exampleRuntime exampleSteps exampleWorld
        (cancelDuring 0 ''2024-01-01T00:00:03.000Z'' ''job-1'')
        ''2024-01-01T00:00:00.000Z'' ''2024-01-01T00:00:05.000Z'' 0 (exampleEngine None))) 0)
     = Completed
   \<and> completedAt (heap (final (executeJob exampleRuntime exampleSteps exampleWorld
        (cancelDuring 0 ''2024-01-01T00:00:03.000Z'' ''job-1'')
        ''2024-01-01T00:00:00.000Z'' ''2024-01-01T00:00:05.000Z'' 0 (exampleEngine None))) 0)
     = Some ''2024-01-01T00:00:05.000Z''"
proof -
  let ?e = "exampleEngine None"
  let ?r = "executeJob exampleRuntime exampleSteps exampleWorld
        (cancelDuring 0 ''2024-01-01T00:00:03.000Z'' ''job-1'')
        ''2024-01-01T00:00:00.000Z'' ''2024-01-01T00:00:05.000Z'' 0 (exampleEngine None)"
  have hyp: "''job-1'' = id' (heap ?e 0) \<and> ''job-1'' \<notin> activeJobs ?e \<and> (0::nat) < 3
      \<and> ?r = ?r"
    by (simp add: exampleEngine_def exampleJob_def)
  have ok: "rejected ?r = None"
    by (simp add: updateJob_simps executeJob_def tryBlock_def resumeAfterExtract_def resumeAfterTransform_def
          resumeAfterLoad_def Let_def beginRun_eq afterExtract_eq afterTransform_eq
          afterLoad_eq cancelDuring_def cancelling_def cancelJob_def
          extract'_def scopedWebhook_def applyFilters_def transform_def load_def
          exampleWorld_def exampleEngine_def exampleJob_def)
  note all = cancel_overwritten [where jobId = "''job-1''" and e = ?e and j = 0 and p = 0
      and tc = "''2024-01-01T00:00:03.000Z''" and r = ?r
      and js = exampleRuntime and ops = exampleSteps and w = exampleWorld
      and ?t0.0 = "''2024-01-01T00:00:00.000Z''" and ?t1.0 = "''2024-01-01T00:00:05.000Z''",
      THEN mp, OF hyp]
  then have "0 < length (suspended ?r)" by simp
  with all ok show ?thesis by blast
qed

lemma collectAll_limit:
  "collectAll (w\<lparr>getRequests := g\<rparr>) acc cs
     = collectAll (w\<lparr>getRequests := (\<lambda>i n. g i 1000)\<rparr>) acc cs"
  by (induction cs arbitrary: acc) (simp_all split: sum.splits)

lemma extract_limit_only:
  "extract' js (w\<lparr>getRequests := g\<rparr>) f = extract' js (w\<lparr>getRequests := (\<lambda>i n. g i 1000)\<rparr>) f"
  by (simp add: extract'_def collectAll_limit [where w = w and g = g] split: option.splits sum.splits)

lemma collectAll_take:
  "(\<And>i. getRequests w i 1000 = Inr (take 1000 (db i))) \<Longrightarrow>
     collectAll w acc cs = Inr (acc @ concat (map (\<lambda>i. take 1000 (db i)) cs))"
  by (induction cs arbitrary: acc) simp_all

lemma extract_take:
  assumes "getStorageManager w = None" "getAllWebhookConfigs w = Inr ids"
    and "\<And>i. getRequests w i 1000 = Inr (take 1000 (db i))"
  shows "extract' js w f =
     applyFilters js (concat (map (\<lambda>i. take 1000 (db i)) (endpointsRead f ids))) f"
  using assms(1,2) assms(3)
  by (simp add: extract'_def endpointsRead_def collectAll_take [where w = w and db = db] split: option.splits)

lemma length_concat_take:
  "length (concat (map (\<lambda>i. take 1000 (db i)) cs)) \<le> 1000 * length cs"
  by (induction cs) auto

lemma filterArray_sub:
  "filterArray p rs = Inr xs \<Longrightarrow> length xs \<le> length rs \<and> set xs \<subseteq> set rs"
proof (induction rs arbitrary: xs)
  case Nil
  then show ?case by simp
next
  case (Cons r rs)
  from Cons.prems obtain keep ys where k: "p r = Inr keep" and y: "filterArray p rs = Inr ys"
    and x: "xs = (if keep then r # ys else ys)"
    by (auto split: sum.splits)
  from Cons.IH [OF y] x show ?case by auto
qed

lemma applyFilters_sub:
  "applyFilters js rs f = Inr xs \<Longrightarrow> length xs \<le> length rs \<and> set xs \<subseteq> set rs"
  by (cases f) (auto simp: applyFilters_def dest: filterArray_sub)

lemma executeJob_totalRecords:
  "id' (heap e j) \<notin> activeJobs e \<Longrightarrow>
     totalOf (heap (final (executeJob js ops w undisturbed t0 t1 j e)) j)
       = (case extract' js w (filters (heap e j)) of Inl err \<Rightarrow> 0 | Inr xs \<Rightarrow> length xs)"
  by (simp add: updateJob_simps undisturbed_simps executeJob_def tryBlock_def resumeAfterExtract_def resumeAfterTransform_def
        resumeAfterLoad_def Let_def beginRun_eq afterExtract_eq afterTransform_eq afterLoad_eq
        finallyBlock_def catchBlock_def totalOf_def
      split: sum.splits option.splits)

text \<open>
  Claim C10. \<open>extract\<close> asks the storage for 1000 requests and for no other number:
  a storage that ignores the limit it is given and serves the answer for 1000 gives
  the same result. When the storage answers a request for 1000 records of an endpoint
  with the first 1000 stored for it, \<open>extract\<close> returns what \<open>applyFilters\<close> makes
  of the first 1000 records of each endpoint it reads: if it returns records, then at
  most 1000 per endpoint, and none that is not among the first 1000 of an endpoint.
  After a run \<open>totalRecords\<close> is within the same bound.
\<close>

theorem extract_reads_at_most_1000:
  "extract' js (w\<lparr>getRequests := g\<rparr>) f = extract' js (w\<lparr>getRequests := (\<lambda>i n. g i 1000)\<rparr>) f
   \<and> (getStorageManager w = None \<and> getAllWebhookConfigs w = Inr ids
      \<and> (\<forall>i. getRequests w i 1000 = Inr (take 1000 (db i))) \<longrightarrow>
        extract' js w f =
          applyFilters js (concat (map (\<lambda>i. take 1000 (db i)) (endpointsRead f ids))) f
        \<and> (\<forall>xs. extract' js w f = Inr xs \<longrightarrow>
             length xs \<le> 1000 * length (endpointsRead f ids)
             \<and> set xs \<subseteq> (\<Union>i\<in>set (endpointsRead f ids). set (take 1000 (db i))))
        \<and> (id' (heap e j) \<notin> activeJobs e \<longrightarrow>
             totalOf (heap (final (executeJob js ops w undisturbed t0 t1 j e)) j)
               \<le> 1000 * length (endpointsRead (filters (heap e j)) ids)))"
proof (intro conjI impI)
  show "extract' js (w\<lparr>getRequests := g\<rparr>) f
          = extract' js (w\<lparr>getRequests := (\<lambda>i n. g i 1000)\<rparr>) f"
    by (rule extract_limit_only)
next
  assume h: "getStorageManager w = None \<and> getAllWebhookConfigs w = Inr ids
      \<and> (\<forall>i. getRequests w i 1000 = Inr (take 1000 (db i)))"
  then have x: "\<And>f. extract' js w f =
      applyFilters js (concat (map (\<lambda>i. take 1000 (db i)) (endpointsRead f ids))) f"
    by (simp add: extract_take)
  have len: "length xs \<le> 1000 * length (endpointsRead f ids)
      \<and> set xs \<subseteq> set (concat (map (\<lambda>i. take 1000 (db i)) (endpointsRead f ids)))"
    if "extract' js w f = Inr xs" for f xs
  proof -
    from that x [of f] have "applyFilters js
        (concat (map (\<lambda>i. take 1000 (db i)) (endpointsRead f ids))) f = Inr xs"
      by simp
    from applyFilters_sub [OF this] length_concat_take [of db "endpointsRead f ids"]
    show ?thesis by simp
  qed
  show "extract' js w f =
      applyFilters js (concat (map (\<lambda>i. take 1000 (db i)) (endpointsRead f ids))) f"
    by (rule x)
  show "\<forall>xs. extract' js w f = Inr xs \<longrightarrow>
             length xs \<le> 1000 * length (endpointsRead f ids)
             \<and> set xs \<subseteq> (\<Union>i\<in>set (endpointsRead f ids). set (take 1000 (db i)))"
  proof (intro allI impI)
    fix xs assume "extract' js w f = Inr xs"
    from len [OF this] show "length xs \<le> 1000 * length (endpointsRead f ids)
        \<and> set xs \<subseteq> (\<Union>i\<in>set (endpointsRead f ids). set (take 1000 (db i)))"
      by auto
  qed
  assume n: "id' (heap e j) \<notin> activeJobs e"
  from executeJob_totalRecords [OF n, of js ops w t0 t1] len [of "filters (heap e j)"]
  show "totalOf (heap (final (executeJob js ops w undisturbed t0 t1 j e)) j)
               \<le> 1000 * length (endpointsRead (filters (heap e j)) ids)"
    by (cases "extract' js w (filters (heap e j))") simp_all
qed

theorem extract_reads_at_most_1000_witness:
  "length (exampleStored ''hook-1'') = 1001
   \<and> extract' exampleRuntime exampleStore None = Inr (replicate 1000 (exampleRequest ''GET'' 0))
   \<and> totalOf (heap (final (executeJob exampleRuntime exampleSteps exampleStore undisturbed
        ''2024-01-01T00:00:00.000Z'' ''2024-01-01T00:00:05.000Z'' 0 (exampleEngine None))) 0)
       \<le> 1000"
proof -
  have h: "getStorageManager exampleStore = None \<and> getAllWebhookConfigs exampleStore = Inr [''hook-1'']
      \<and> (\<forall>i. getRequests exampleStore i 1000 = Inr (take 1000 (exampleStored i)))"
    by (simp add: exampleStore_def)
  have n: "id' (heap (exampleEngine None) 0) \<notin> activeJobs (exampleEngine None)"
    by (simp add: exampleEngine_def)
  have l: "length (exampleStored ''hook-1'') = 1001"
    by (simp add: exampleStored_def)
  have e: "endpointsRead None [''hook-1''] = [''hook-1'']"
    "filters (heap (exampleEngine None) 0) = None"
    by (simp_all add: endpointsRead_def scopedWebhook_def exampleEngine_def exampleJob_def)
  have t: "take 1000 (exampleStored ''hook-1'') = replicate 1000 (exampleRequest ''GET'' 0)"
    by (simp add: exampleStored_def)
  from h n extract_reads_at_most_1000 [where js = exampleRuntime and w = exampleStore
      and g = "getRequests exampleStore" and f = None and ids = "[''hook-1'']"
      and db = exampleStored and e = "exampleEngine None" and j = 0 and ops = exampleSteps
      and ?t0.0 = "''2024-01-01T00:00:00.000Z''" and ?t1.0 = "''2024-01-01T00:00:05.000Z''"]
  have "extract' exampleRuntime exampleStore None =
          applyFilters exampleRuntime
            (concat (map (\<lambda>i. take 1000 (exampleStored i)) (endpointsRead None [''hook-1'']))) None"
    and "totalOf (heap (final (executeJob exampleRuntime exampleSteps exampleStore undisturbed
        ''2024-01-01T00:00:00.000Z'' ''2024-01-01T00:00:05.000Z'' 0 (exampleEngine None))) 0)
       \<le> 1000 * length (endpointsRead (filters (heap (exampleEngine None) 0)) [''hook-1''])"
    by blast+
  with l show ?thesis by (simp add: e t applyFilters_def)
qed

end
